theory Spec2Isabelle
  imports Complex_Main "HOL-Library.Multiset"
begin

section \<open>Exceptions and the shell command runner\<close>

text \<open>
  The script \<^verbatim>\<open>scripts/ft-ergodox.py\<close> raises and catches Python exceptions.
  An exception is a value; a computation that may raise returns \<open>exn + 'a\<close>,
  with \<open>Inl\<close> for the exception that propagates.
\<close>

datatype exn =
    CalledProcessError int string
  | NameError string
  | ValueError string
  | IndexError string
  | OtherError string

fun is_CalledProcessError :: "exn \<Rightarrow> bool" where
  "is_CalledProcessError (CalledProcessError rc out) = True"
| "is_CalledProcessError e = False"

text \<open>
  \<^verbatim>\<open>subprocess.check_output(cmd, stderr=STDOUT, universal_newlines=True, shell=True,
  cwd=os.getcwd())\<close> belongs to the standard library: it is the environment of the
  script. It returns the combined output, raises \<^verbatim>\<open>CalledProcessError\<close> (carrying
  the exit status and the captured output) when the exit status is not zero, or raises
  something else. The environment is a parameter \<open>sh\<close> of that type.
\<close>

type_synonym shell = "string \<Rightarrow> exn + string"

text \<open>
  \<^verbatim>\<open>run_command\<close> (lines 58-76): the \<^verbatim>\<open>try\<close> has one handler, for
  \<^verbatim>\<open>subprocess.CalledProcessError\<close>; any other exception leaves the function.
\<close>

definition run_command :: "shell \<Rightarrow> string \<Rightarrow> exn + string" where
  "run_command sh cmd =
     (case sh cmd of
        Inr output \<Rightarrow> Inr output
      | Inl (CalledProcessError rc output) \<Rightarrow> Inr output
      | Inl e \<Rightarrow> Inl e)"

section \<open>Keycap configuration records\<close>

text \<open>
  A keycap object carries the attributes that the script assigns or reads. A number
  written as a literal is the real that the literal denotes; a Python list is a list, a
  \<^verbatim>\<open>Path\<close> is its string, and a Python string is the list of the bytes of its
  UTF-8 encoding. The attribute \<^verbatim>\<open>trans\<close> is called \<open>trans_attr\<close>, since
  \<open>trans\<close> is a constant of HOL.

  Three attributes hold numbers that the script computes (\<^verbatim>\<open>0.45*2.7\<close>,
  \<^verbatim>\<open>KEY_UNIT*1.5-BETWEENSPACE\<close>, \<^verbatim>\<open>KEY_UNIT*2-BETWEENSPACE\<close>). Python computes
  them in floating point, which is not the arithmetic of the reals, so such a number is
  kept as the expression that computes it.
\<close>

datatype pyfloat = Float real | Times pyfloat pyfloat | Minus pyfloat pyfloat

record keycap =
  name :: string
  legends :: "string list"
  render :: "string list"
  file_type :: string
  output_path :: string
  use_colorscad :: bool
  stem_color :: string
  openscad_path :: string
  colorscad_path :: string
  key_profile :: string
  key_rotation :: "real list"
  key_length :: pyfloat
  key_width :: pyfloat
  wall_thickness :: pyfloat
  uniform_wall_thickness :: bool
  dish_thickness :: real
  dish_corner_fn :: real
  dish_invert :: bool
  polygon_layers :: real
  stem_height :: real
  stem_type :: string
  stem_inset :: real
  stem_walls_inset :: real
  stem_inside_tolerance :: real
  stem_side_supports :: "real list"
  stem_locations :: "real list list"
  scale :: "real list list"
  fonts :: "string list"
  font_sizes :: "real list"
  trans_attr :: "real list list"
  trans2 :: "real list list"
  rotation :: "real list list"
  rotation2 :: "real list list"
  homing_dot_length :: real
  homing_dot_width :: real
  homing_dot_x :: real
  homing_dot_y :: real
  homing_dot_z :: real

section \<open>The class hierarchy\<close>

text \<open>Lines 44-49.\<close>

definition OPENSCAD_PATH :: string where
  "OPENSCAD_PATH = ''deps/OpenSCAD-2023.09.30.ai16393-x86_64.AppImage''"

definition COLORSCAD_PATH :: string where
  "COLORSCAD_PATH = ''deps/colorscad/colorscad.sh''"

definition KEY_UNIT :: real where
  "KEY_UNIT = 19.05"

definition BETWEENSPACE :: real where
  "BETWEENSPACE = 0.8"

definition FILE_TYPE :: string where
  "FILE_TYPE = ''3mf''"

definition Font_Awesome :: string where
  "Font_Awesome = ''Font Awesome 6 Free:style=Solid''"

definition Gotham_Rounded :: string where
  "Gotham_Rounded = ''Gotham Rounded:style=Bold''"

text \<open>
  The keyword arguments that the catalog passes to the constructors: \<^verbatim>\<open>name\<close>,
  \<^verbatim>\<open>legends\<close>, \<^verbatim>\<open>font_sizes\<close> and \<^verbatim>\<open>homing_dot\<close>, each present or absent.
\<close>

record kwargs =
  kw_name :: "string option"
  kw_legends :: "string list option"
  kw_font_sizes :: "real list option"
  kw_homing_dot :: "bool option"

text \<open>
  Modelled from the spec: the class \<^verbatim>\<open>Keycap\<close> (module \<^verbatim>\<open>keycap\<close>) is not part of
  the script. The spec says that a configuration object is built by keyword overrides:
  \<^verbatim>\<open>postinit(**kwargs)\<close> assigns each keyword that is present to the attribute of its
  name, and \<^verbatim>\<open>Keycap.__init__\<close> does the same on top of the defaults of the class,
  which are the parameter \<open>dflt\<close>. \<^verbatim>\<open>homing_dot\<close> is a parameter of
  \<^verbatim>\<open>ergodox_ft_base.__init__\<close> and names no attribute.
\<close>

definition postinit :: "kwargs \<Rightarrow> keycap \<Rightarrow> keycap" where
  "postinit kw self =
     (let s1 = (case kw_name kw of None \<Rightarrow> self | Some v \<Rightarrow> self\<lparr>name := v\<rparr>);
          s2 = (case kw_legends kw of None \<Rightarrow> s1 | Some v \<Rightarrow> s1\<lparr>legends := v\<rparr>)
      in case kw_font_sizes kw of None \<Rightarrow> s2 | Some v \<Rightarrow> s2\<lparr>font_sizes := v\<rparr>)"

definition Keycap :: "keycap \<Rightarrow> kwargs \<Rightarrow> string \<Rightarrow> string \<Rightarrow> keycap" where
  "Keycap dflt kw openscad colorscad =
     postinit kw (dflt\<lparr>openscad_path := openscad, colorscad_path := colorscad\<rparr>)"

text \<open>
  Assignment to and reading of a list element at a constant index; Python raises
  \<^verbatim>\<open>IndexError\<close> out of range.
\<close>

definition setitem :: "'a list \<Rightarrow> nat \<Rightarrow> 'a \<Rightarrow> exn + 'a list" where
  "setitem xs i v =
     (if i < length xs then Inr (xs[i := v])
      else Inl (IndexError ''list assignment index out of range''))"

definition getitem :: "'a list \<Rightarrow> nat \<Rightarrow> exn + 'a" where
  "getitem xs i =
     (if i < length xs then Inr (xs ! i) else Inl (IndexError ''list index out of range''))"

text \<open>Sequencing of statements that may raise.\<close>

definition and_then :: "exn + 'a \<Rightarrow> ('a \<Rightarrow> exn + 'b) \<Rightarrow> exn + 'b" where
  "and_then r f = (case r of Inl e \<Rightarrow> Inl e | Inr x \<Rightarrow> f x)"

text \<open>\<^verbatim>\<open>ergodox_ft_base\<close> (lines 116-169).\<close>

definition ergodox_ft_base :: "keycap \<Rightarrow> kwargs \<Rightarrow> exn + keycap" where
  "ergodox_ft_base dflt kwargs =
     (let homing_dot = (kw_homing_dot kwargs = Some True);
          self = Keycap dflt kwargs OPENSCAD_PATH COLORSCAD_PATH;
          self = self\<lparr>
            render := [''keycap'', ''stem''],
            file_type := FILE_TYPE,
            key_profile := ''riskeycap'',
            key_rotation := [110.1, 0, 0],
            wall_thickness := Times (Float 0.45) (Float 2.7),
            uniform_wall_thickness := True,
            dish_thickness := 1.0,
            dish_corner_fn := 40,
            polygon_layers := 4,
            stem_height := 4,
            stem_type := ''round_cherry'',
            stem_inset := - 0.5,
            stem_walls_inset := 0,
            stem_inside_tolerance := 0.15,
            stem_side_supports := [0, 0, 1, 0],
            stem_locations := [[0, 0, 0]],
            scale := [[1, 1, 3], [1, 1, 3]],
            fonts := [Gotham_Rounded, Gotham_Rounded],
            font_sizes := [4.5, 3.5],
            trans_attr := [[0, - 2.6, 0], [0, - 2, 2]],
            rotation := [[- 20, 0, 0], [68, 0, 0]]\<rparr>;
          self = (if homing_dot
                  then self\<lparr>
                    homing_dot_length := 1.5,
                    homing_dot_width := 1.5,
                    homing_dot_x := 0,
                    homing_dot_y := - 3,
                    homing_dot_z := - 0.45\<rparr>
                  else self)
      in Inr (postinit kwargs self))"

text \<open>\<^verbatim>\<open>ergodox_ft_wpm\<close> (lines 171-177).\<close>

definition ergodox_ft_wpm :: "keycap \<Rightarrow> kwargs \<Rightarrow> exn + keycap" where
  "ergodox_ft_wpm dflt kwargs =
     and_then (ergodox_ft_base dflt kwargs) (\<lambda>self.
     and_then (setitem (font_sizes self) 1 2) (\<lambda>fs.
     Inr (self\<lparr>font_sizes := fs\<rparr>)))"

























text \<open>
  \<^verbatim>\<open>ergodox_ft_2UV_icon\<close> (lines 461-479). The tuple assignment swaps
  \<^verbatim>\<open>trans\<close> and \<^verbatim>\<open>trans2\<close>.
\<close>

definition ergodox_ft_2UV_icon :: "keycap \<Rightarrow> kwargs \<Rightarrow> exn + keycap" where
  "ergodox_ft_2UV_icon dflt kwargs =
     and_then (ergodox_ft_base dflt kwargs) (\<lambda>self.
     let kwargs_copy = kwargs;
         self = self\<lparr>key_length := Minus (Times (Float KEY_UNIT) (Float 2)) (Float BETWEENSPACE)\<rparr>;
         self = self\<lparr>key_rotation := [0, - 110.095, 90]\<rparr>;
         self = self\<lparr>stem_locations := [[0, 0, 0], [12, 0, 0], [- 12, 0, 0]]\<rparr>;
         self = self\<lparr>rotation2 := rotation self\<rparr>;
         self = self\<lparr>rotation := [[0, 0, - 90]]\<rparr>;
         self = self\<lparr>trans_attr := trans2 self, trans2 := trans_attr self\<rparr> in
     and_then (setitem (trans2 self) 1 [0, 0, - 2.8]) (\<lambda>t2.
     let self = self\<lparr>trans2 := t2\<rparr>;
         self = self\<lparr>fonts := [Font_Awesome]\<rparr>;
         self = self\<lparr>font_sizes := [5]\<rparr>;
         self = self\<lparr>stem_side_supports := [1, 0, 0, 0]\<rparr> in
     Inr (postinit kwargs_copy self)))"


text \<open>\<^verbatim>\<open>ergodox_ft_space\<close> (lines 492-504).\<close>

definition ergodox_ft_space :: "keycap \<Rightarrow> kwargs \<Rightarrow> exn + keycap" where
  "ergodox_ft_space dflt kwargs =
     and_then (ergodox_ft_2UV_icon dflt kwargs) (\<lambda>self.
     let kwargs_copy = kwargs;
         self = self\<lparr>key_length := Minus (Times (Float KEY_UNIT) (Float 2)) (Float BETWEENSPACE)\<rparr>;
         self = self\<lparr>dish_invert := True\<rparr>;
         self = self\<lparr>use_colorscad := False\<rparr>;
         self = self\<lparr>key_rotation := [0, - 113.651, 90]\<rparr>;
         self = self\<lparr>polygon_layers := 16\<rparr> in
     Inr (postinit kwargs_copy self))"

section \<open>Command generation\<close>

text \<open>
  The parsed command line (\<^verbatim>\<open>args\<close>, lines 624-650): one field per
  \<^verbatim>\<open>add_argument\<close>, named \<open>args_\<close> and the destination.
\<close>

record args =
  args_out :: string
  args_jobs :: int
  args_force :: bool
  args_skip_colorscad :: bool
  args_transparent :: bool
  args_legends :: bool
  args_keycaps :: bool
  args_names :: "string list"

text \<open>The values \<^verbatim>\<open>parse_args\<close> gives when no argument is passed (the defaults).\<close>

definition default_args :: args where
  "default_args =
     \<lparr>args_out = ''.'', args_jobs = 8, args_force = False, args_skip_colorscad = False,
      args_transparent = False, args_legends = False, args_keycaps = False,
      args_names = []\<rparr>"

text \<open>
  What the script reads and changes: the module globals \<^verbatim>\<open>KEYCAPS\<close>,
  \<^verbatim>\<open>COMMANDS\<close> and \<^verbatim>\<open>SEM\<close> (\<open>None\<close> while the name has no binding, otherwise
  the number of permits of the semaphore), the lines printed (one entry for each call of
  \<^verbatim>\<open>print\<close>), and the paths that exist in the file system.
\<close>

record world =
  KEYCAPS :: "keycap list"
  COMMANDS :: "string list"
  SEM :: "nat option"
  stdout :: "string list"
  files :: "string set"

text \<open>
  The module body before the \<^verbatim>\<open>__main__\<close> block: \<^verbatim>\<open>COMMANDS = []\<close> (line 53),
  the assignment of \<^verbatim>\<open>SEM\<close> at lines 55-56 is commented out, and \<^verbatim>\<open>KEYCAPS\<close> is
  the catalog.
\<close>

definition module_loaded :: "keycap list \<Rightarrow> string set \<Rightarrow> world" where
  "module_loaded catalog fs =
     \<lparr>KEYCAPS = catalog, COMMANDS = [], SEM = None, stdout = [], files = fs\<rparr>"

text \<open>\<^verbatim>\<open>colorama\<close>'s \<^verbatim>\<open>Style.BRIGHT\<close> and \<^verbatim>\<open>Style.RESET_ALL\<close>.\<close>

definition BRIGHT :: string where
  "BRIGHT = [CHR 0x1B] @ ''[1m''"

definition RESET_ALL :: string where
  "RESET_ALL = [CHR 0x1B] @ ''[0m''"

definition print :: "string \<Rightarrow> world \<Rightarrow> world" where
  "print line w = w\<lparr>stdout := stdout w @ [line]\<rparr>"

text \<open>\<^verbatim>\<open>", ".join(...)\<close>.\<close>

fun join :: "string \<Rightarrow> string list \<Rightarrow> string" where
  "join sep [] = []"
| "join sep [x] = x"
| "join sep (x # y # ys) = x @ sep @ join sep (y # ys)"

text \<open>\<^verbatim>\<open>print_keycaps\<close> (lines 614-621).\<close>

definition print_keycaps :: "world \<Rightarrow> world" where
  "print_keycaps w =
     (let w1 = print (BRIGHT @ ''Here's all the keycaps we can render:'' @ [CHR 0x0A] @ RESET_ALL) w;
          keycap_names = join '', '' (map name (KEYCAPS w1))
      in print keycap_names w1)"

text \<open>The f-string \<^verbatim>\<open>f"{args.out}/{keycap.name}.{keycap.file_type}"\<close>.\<close>

definition out_file :: "args \<Rightarrow> keycap \<Rightarrow> string" where
  "out_file a k = args_out a @ ''/'' @ name k @ ''.'' @ file_type k"

definition skipping_msg :: "args \<Rightarrow> keycap \<Rightarrow> string" where
  "skipping_msg a k = BRIGHT @ out_file a k @ '' exists; skipping...'' @ RESET_ALL"

definition rendering_msg :: "args \<Rightarrow> keycap \<Rightarrow> string" where
  "rendering_msg a k = BRIGHT @ ''Rendering '' @ out_file a k @ ''...'' @ RESET_ALL"

text \<open>
  The two conditional assignments that every branch makes before it renders
  (\<^verbatim>\<open>args.skip_colorscad\<close>, \<^verbatim>\<open>args.transparent\<close>).
\<close>

definition apply_flags :: "args \<Rightarrow> keycap \<Rightarrow> keycap" where
  "apply_flags a k =
     (let k1 = (if args_skip_colorscad a then k\<lparr>use_colorscad := False\<rparr> else k)
      in if args_transparent a then k1\<lparr>stem_color := ''#505050''\<rparr> else k1)"

text \<open>
  The three statements that end every rendering path: two prints and
  \<^verbatim>\<open>COMMANDS.append(str(keycap))\<close>. \<^verbatim>\<open>Keycap.__str__\<close> is not part of the
  script: it is the parameter \<open>str\<close>.
\<close>

definition emit :: "(keycap \<Rightarrow> string) \<Rightarrow> args \<Rightarrow> keycap \<Rightarrow> world \<Rightarrow> world" where
  "emit str a k w =
     (let w1 = print (rendering_msg a k) w;
          w2 = print (str k) w1
      in w2\<lparr>COMMANDS := COMMANDS w2 @ [str k]\<rparr>)"

text \<open>
  A loop \<^verbatim>\<open>for keycap in KEYCAPS\<close> whose body changes the keycap at hand and the
  rest of the state: the body gets the keycap and the state and returns both.
\<close>

fun for_each :: "(keycap \<Rightarrow> world \<Rightarrow> keycap \<times> world) \<Rightarrow> keycap list \<Rightarrow> world \<Rightarrow> keycap list \<times> world" where
  "for_each body [] w = ([], w)"
| "for_each body (k # ks) w =
     (let (k', w1) = body k w;
          (ks', w2) = for_each body ks w1
      in (k' # ks', w2))"

definition for_KEYCAPS :: "(keycap \<Rightarrow> world \<Rightarrow> keycap \<times> world) \<Rightarrow> world \<Rightarrow> world" where
  "for_KEYCAPS body w =
     (let (ks', w1) = for_each body (KEYCAPS w) w in w1\<lparr>KEYCAPS := ks'\<rparr>)"

text \<open>The body of the first loop of the full batch (lines 711-727).\<close>

definition render_keycap :: "(keycap \<Rightarrow> string) \<Rightarrow> args \<Rightarrow> keycap \<Rightarrow> world \<Rightarrow> keycap \<times> world" where
  "render_keycap str a keycap w =
     (let k1 = keycap\<lparr>output_path := args_out a\<rparr>
      in if \<not> args_force a \<and> out_file a k1 \<in> files w
         then (k1, print (skipping_msg a k1) w)
         else (let k2 = apply_flags a k1 in (k2, emit str a k2 w)))"

text \<open>The body of the second loop of the full batch (lines 730-753).\<close>

definition render_legend :: "(keycap \<Rightarrow> string) \<Rightarrow> args \<Rightarrow> keycap \<Rightarrow> world \<Rightarrow> keycap \<times> world" where
  "render_legend str a legend w =
     (if legends legend = [''''] then (legend, w)
      else
        (let l1 = legend\<lparr>name := name legend @ ''_legends''\<rparr>;
             l2 = l1\<lparr>output_path := args_out a\<rparr>;
             l3 = l2\<lparr>render := [''legends'']\<rparr>;
             l4 = l3\<lparr>file_type := ''stl''\<rparr>
         in if \<not> args_force a \<and> out_file a l4 \<in> files w
            then (l4, print (skipping_msg a l4) w)
            else (let l5 = apply_flags a l4 in (l5, emit str a l5 w))))"

text \<open>The full batch (the \<^verbatim>\<open>else\<close> branch, lines 709-753).\<close>

definition full_batch :: "(keycap \<Rightarrow> string) \<Rightarrow> args \<Rightarrow> world \<Rightarrow> world" where
  "full_batch str a w =
     (let w1 = for_KEYCAPS (render_keycap str a) w
      in if args_legends a then for_KEYCAPS (render_legend str a) w1 else w1)"

text \<open>
  The named branch (lines 666-708). The body of the inner loop for a keycap whose name
  matches is in two parts: lines 671-690 and the \<^verbatim>\<open>if args.legends\<close> of lines 691-706.
\<close>

definition named_render :: "(keycap \<Rightarrow> string) \<Rightarrow> args \<Rightarrow> keycap \<Rightarrow> world \<Rightarrow> keycap \<times> world" where
  "named_render str a keycap w =
     (let k1 = keycap\<lparr>output_path := args_out a\<rparr>;
          exists = (\<not> args_force a \<and> out_file a k1 \<in> files w);
          w1 = (if exists then print (skipping_msg a k1) w else w);
          k2 = apply_flags a k1
      in if \<not> exists then (k2, emit str a k2 w1) else (k2, w1))"

definition named_legends :: "(keycap \<Rightarrow> string) \<Rightarrow> args \<Rightarrow> keycap \<Rightarrow> world \<Rightarrow> keycap \<times> world" where
  "named_legends str a keycap w =
     (if args_legends a
      then (let k1 = keycap\<lparr>name := name keycap @ ''_legends''\<rparr>;
                k2 = k1\<lparr>file_type := ''stl''\<rparr>
            in if out_file a k2 \<in> files w
               then (k2, print (skipping_msg a k2) w)
               else (k2, emit str a k2 w))
      else (keycap, w))"

text \<open>
  The state of the named branch carries the local \<^verbatim>\<open>matched\<close> beside the world.
  \<^verbatim>\<open>str.lower\<close> belongs to the standard library and works on Unicode: it is the
  parameter \<open>lower\<close>.
\<close>

definition named_keycap ::
  "(string \<Rightarrow> string) \<Rightarrow> (keycap \<Rightarrow> string) \<Rightarrow> args \<Rightarrow> string \<Rightarrow> keycap \<Rightarrow> world \<times> bool \<Rightarrow>
     keycap \<times> world \<times> bool" where
  "named_keycap lower str a nm keycap wm =
     (if lower (name keycap) = lower nm
      then (let (k1, w1) = named_render str a keycap (fst wm);
                (k2, w2) = named_legends str a k1 w1
            in (k2, w2, True))
      else (keycap, wm))"

fun named_each ::
  "(string \<Rightarrow> string) \<Rightarrow> (keycap \<Rightarrow> string) \<Rightarrow> args \<Rightarrow> string \<Rightarrow> keycap list \<Rightarrow> world \<times> bool \<Rightarrow>
     keycap list \<times> world \<times> bool" where
  "named_each lower str a nm [] wm = ([], wm)"
| "named_each lower str a nm (k # ks) wm =
     (let (k', wm1) = named_keycap lower str a nm k wm;
          (ks', wm2) = named_each lower str a nm ks wm1
      in (k' # ks', wm2))"

fun names_loop ::
  "(string \<Rightarrow> string) \<Rightarrow> (keycap \<Rightarrow> string) \<Rightarrow> args \<Rightarrow> string list \<Rightarrow> world \<times> bool \<Rightarrow> world \<times> bool" where
  "names_loop lower str a [] wm = wm"
| "names_loop lower str a (nm # nms) wm =
     (let (ks', w1, m1) = named_each lower str a nm (KEYCAPS (fst wm)) wm
      in names_loop lower str a nms (w1\<lparr>KEYCAPS := ks'\<rparr>, m1))"

text \<open>
  After the loops \<^verbatim>\<open>name\<close> still holds the last of \<^verbatim>\<open>args.names\<close>; the branch is
  entered only when that list is not empty.
\<close>

definition not_found_msg :: "string \<Rightarrow> string" where
  "not_found_msg nm = ''Cound not find a keycap named '' @ nm"

definition named_batch :: "(string \<Rightarrow> string) \<Rightarrow> (keycap \<Rightarrow> string) \<Rightarrow> args \<Rightarrow> world \<Rightarrow> world" where
  "named_batch lower str a w =
     (let (w1, matched) = names_loop lower str a (args_names a) (w, False)
      in if \<not> matched then print (not_found_msg (last (args_names a))) w1 else w1)"

text \<open>Lines 665-753: the line \<^verbatim>\<open>Outputting to\<close> and one of the two branches.\<close>

definition generate_commands ::
  "(string \<Rightarrow> string) \<Rightarrow> (keycap \<Rightarrow> string) \<Rightarrow> args \<Rightarrow> world \<Rightarrow> world" where
  "generate_commands lower str a w =
     (let w1 = print (BRIGHT @ ''Outputting to: '' @ args_out a @ RESET_ALL) w
      in if args_names a \<noteq> [] then named_batch lower str a w1 else full_batch str a w1)"

text \<open>
  The \<^verbatim>\<open>__main__\<close> block up to line 753. \<open>argv\<close> is \<^verbatim>\<open>sys.argv\<close>, \<open>a\<close> what
  \<^verbatim>\<open>parse_args\<close> returned, \<open>help\<close> the text of \<^verbatim>\<open>parser.print_help()\<close>.
  \<^verbatim>\<open>asyncio.Semaphore(n)\<close> raises \<^verbatim>\<open>ValueError\<close> for a negative \<open>n\<close>.
  \<^verbatim>\<open>os.mkdir\<close> belongs to the standard library: it is the parameter \<open>mkdir\<close>, which
  gets the path and the paths that exist and returns the paths that exist afterwards, or
  the exception that it raises (\<^verbatim>\<open>FileNotFoundError\<close>, \<^verbatim>\<open>PermissionError\<close>, ...).
  The block ends with \<^verbatim>\<open>sys.exit(1)\<close>, with an exception, or goes on to the loop of
  line 754 (\<open>Proceed\<close>).
\<close>

datatype outcome = Exit int | Raised exn | Proceed

definition generate ::
  "(string \<Rightarrow> string) \<Rightarrow> (keycap \<Rightarrow> string) \<Rightarrow> string \<Rightarrow> (string \<Rightarrow> string set \<Rightarrow> exn + string set) \<Rightarrow>
     string list \<Rightarrow> args \<Rightarrow> world \<Rightarrow> world \<times> outcome" where
  "generate lower str help mkdir argv a w =
     (if args_jobs a < 0 then (w, Raised (ValueError ''Semaphore initial value must be >= 0''))
      else
        (let w1 = w\<lparr>SEM := Some (nat (args_jobs a))\<rparr>
         in if length argv = 1
            then (print_keycaps (print [] (print help w1)), Exit 1)
            else if args_keycaps a
            then (print_keycaps w1, Exit 1)
            else if args_out a \<notin> files w1
            then (let w2 = print (BRIGHT @ ''Output path, '' @ [CHR 0x27] @ args_out a @
                                    [CHR 0x27] @ '' does not exist; making it...'' @ RESET_ALL) w1
                  in case mkdir (args_out a) (files w2) of
                       Inl e \<Rightarrow> (w2, Raised e)
                     | Inr fs \<Rightarrow> (generate_commands lower str a (w2\<lparr>files := fs\<rparr>), Proceed))
            else (generate_commands lower str a w1, Proceed)))"


section \<open>Worked data\<close>

text \<open>
  Modelled from the spec: the defaults of the class \<^verbatim>\<open>Keycap\<close> are not part of the
  script. \<open>Keycap_defaults\<close> is a stand-in used by the worked examples only; every
  theorem below holds for any defaults. The script compares \<^verbatim>\<open>legends\<close> with
  \<^verbatim>\<open>[""]\<close> ("no actual legends"), the value a keycap built without
  \<^verbatim>\<open>legends\<close> has.
\<close>

definition Keycap_defaults :: keycap where
  "Keycap_defaults =
     \<lparr>name = [], legends = [''''], render = [''keycap'', ''stem''], file_type = ''3mf'',
      output_path = ''.'', use_colorscad = True, stem_color = ''#000000'',
      openscad_path = ''openscad'', colorscad_path = ''colorscad.sh'',
      key_profile = ''riskeycap'', key_rotation = [0, 0, 0], key_length = Float 18.25,
      key_width = Float 18.25, wall_thickness = Float 1.35, uniform_wall_thickness = True,
      dish_thickness = 1, dish_corner_fn = 64, dish_invert = False, polygon_layers = 10,
      stem_height = 4, stem_type = ''box_cherry'', stem_inset = 0, stem_walls_inset = 0,
      stem_inside_tolerance = 0.2, stem_side_supports = [0, 0, 0, 0],
      stem_locations = [[0, 0, 0]], scale = [[1, 1, 1]], fonts = [''Arial''],
      font_sizes = [4], trans_attr = [[0, 0, 0]], trans2 = [[0, 0, 0]],
      rotation = [[0, 0, 0]], rotation2 = [[0, 0, 0]], homing_dot_length = 0,
      homing_dot_width = 0, homing_dot_x = 0, homing_dot_y = 0, homing_dot_z = 0\<rparr>"

text \<open>The keyword arguments \<^verbatim>\<open>name=..., legends=...\<close> and \<^verbatim>\<open>name=...\<close>.\<close>

definition named_with :: "string \<Rightarrow> string list \<Rightarrow> kwargs" where
  "named_with n l =
     \<lparr>kw_name = Some n, kw_legends = Some l, kw_font_sizes = None, kw_homing_dot = None\<rparr>"

definition only_named :: "string \<Rightarrow> kwargs" where
  "only_named n =
     \<lparr>kw_name = Some n, kw_legends = None, kw_font_sizes = None, kw_homing_dot = None\<rparr>"

text \<open>
  Three entries of \<^verbatim>\<open>KEYCAPS\<close> (lines 526, 535 and 600); an entry whose
  constructor raises would stop the module from loading.
\<close>

definition sample_catalog :: "keycap list" where
  "sample_catalog =
     [k. Inr k \<leftarrow>
        [ergodox_ft_base Keycap_defaults (named_with ''l_Q'' [''Q'', ''F6'']),
         ergodox_ft_wpm Keycap_defaults (named_with ''r_Y'' [''Y'', ''WPM 0'']),
         ergodox_ft_space Keycap_defaults (only_named ''l_space'')]]"

text \<open>A stand-in for \<^verbatim>\<open>Keycap.__str__\<close> in the worked examples.\<close>

definition sample_str :: "keycap \<Rightarrow> string" where
  "sample_str k =
     ''openscad -o '' @ output_path k @ ''/'' @ name k @ ''.'' @ file_type k @
     '' RENDER='' @ join '','' (render k)"

text \<open>
  The worked examples use names made of ASCII characters; on such strings
  \<^verbatim>\<open>str.lower\<close> is this function. It stands for \<^verbatim>\<open>str.lower\<close> nowhere else:
  the theorems hold for every function \<open>lower\<close>.
\<close>

definition lower_char :: "char \<Rightarrow> char" where
  "lower_char c =
     (case map_of (zip ''ABCDEFGHIJKLMNOPQRSTUVWXYZ'' ''abcdefghijklmnopqrstuvwxyz'') c of
        Some d \<Rightarrow> d
      | None \<Rightarrow> c)"

definition ascii_lower :: "string \<Rightarrow> string" where
  "ascii_lower s = map lower_char s"

text \<open>
  An \<^verbatim>\<open>os.mkdir\<close> for the worked examples: the parent directory exists and can be
  written to, so the directory is made.
\<close>

definition sample_mkdir :: "string \<Rightarrow> string set \<Rightarrow> exn + string set" where
  "sample_mkdir path fs = Inr (insert path fs)"

section \<open>Notions used in the statements\<close>

text \<open>
  The keycap whose command is generated, written out: the output path is
  \<^verbatim>\<open>args.out\<close>, \<^verbatim>\<open>use_colorscad\<close> is \<^verbatim>\<open>False\<close> under
  \<^verbatim>\<open>--skip-colorscad\<close>, \<^verbatim>\<open>stem_color\<close> is \<^verbatim>\<open>#505050\<close> under
  \<^verbatim>\<open>--transparent\<close>, and nothing else differs.
\<close>

definition rendered :: "args \<Rightarrow> keycap \<Rightarrow> keycap" where
  "rendered a k =
     k\<lparr>output_path := args_out a,
       use_colorscad := (if args_skip_colorscad a then False else use_colorscad k),
       stem_color := (if args_transparent a then ''#505050'' else stem_color k)\<rparr>"

text \<open>
  The legend mesh of a keycap as the claim C6 describes it: the name with the suffix
  \<^verbatim>\<open>_legends\<close>, the render list \<^verbatim>\<open>["legends"]\<close> and the file type \<^verbatim>\<open>stl\<close>;
  \<open>renamed\<close> is the keycap whose legend file exists, which is renamed and not rendered.
\<close>

definition renamed :: "args \<Rightarrow> keycap \<Rightarrow> keycap" where
  "renamed a k =
     k\<lparr>name := name k @ ''_legends'', render := [''legends''], file_type := ''stl'',
       output_path := args_out a\<rparr>"

definition legend_mesh :: "args \<Rightarrow> keycap \<Rightarrow> keycap" where
  "legend_mesh a k =
     k\<lparr>name := name k @ ''_legends'', render := [''legends''], file_type := ''stl'',
       output_path := args_out a,
       use_colorscad := (if args_skip_colorscad a then False else use_colorscad k),
       stem_color := (if args_transparent a then ''#505050'' else stem_color k)\<rparr>"

text \<open>
  The lines that the two loops of the full batch print for one keycap, and the keycap
  that each loop leaves in \<^verbatim>\<open>KEYCAPS\<close>, written out from the claims.
\<close>

definition keycap_lines :: "(keycap \<Rightarrow> string) \<Rightarrow> args \<Rightarrow> string set \<Rightarrow> keycap \<Rightarrow> string list" where
  "keycap_lines str a fs k =
     (if args_force a \<or> args_out a @ ''/'' @ name k @ ''.'' @ file_type k \<notin> fs
      then [BRIGHT @ ''Rendering '' @ args_out a @ ''/'' @ name k @ ''.'' @ file_type k @ ''...'' @
              RESET_ALL,
            str (rendered a k)]
      else [BRIGHT @ args_out a @ ''/'' @ name k @ ''.'' @ file_type k @
              '' exists; skipping...'' @ RESET_ALL])"

definition legend_lines :: "(keycap \<Rightarrow> string) \<Rightarrow> args \<Rightarrow> string set \<Rightarrow> keycap \<Rightarrow> string list" where
  "legend_lines str a fs k =
     (if legends k = [''''] then []
      else if args_force a \<or> args_out a @ ''/'' @ name k @ ''_legends.stl'' \<notin> fs
      then [BRIGHT @ ''Rendering '' @ args_out a @ ''/'' @ name k @ ''_legends.stl'' @ ''...'' @
              RESET_ALL,
            str (legend_mesh a k)]
      else [BRIGHT @ args_out a @ ''/'' @ name k @ ''_legends.stl'' @
              '' exists; skipping...'' @ RESET_ALL])"

definition after_first_loop :: "args \<Rightarrow> string set \<Rightarrow> keycap \<Rightarrow> keycap" where
  "after_first_loop a fs k =
     (if args_force a \<or> args_out a @ ''/'' @ name k @ ''.'' @ file_type k \<notin> fs
      then rendered a k
      else k\<lparr>output_path := args_out a\<rparr>)"

definition after_legend_loop :: "args \<Rightarrow> string set \<Rightarrow> keycap \<Rightarrow> keycap" where
  "after_legend_loop a fs k =
     (if legends k = [''''] then k
      else if args_force a \<or> args_out a @ ''/'' @ name k @ ''_legends.stl'' \<notin> fs
      then legend_mesh a k
      else renamed a k)"

text \<open>
  The commands and the lines that the named branch produces for one keycap whose name
  matches, written out: the command of the keycap unless its file exists and
  \<^verbatim>\<open>--force\<close> is not given, and under \<^verbatim>\<open>--legends\<close> a second command, for
  the keycap renamed with the suffix \<^verbatim>\<open>_legends\<close> and the file type \<^verbatim>\<open>stl\<close>,
  unless that file exists.
\<close>

definition named_commands :: "(keycap \<Rightarrow> string) \<Rightarrow> args \<Rightarrow> string set \<Rightarrow> keycap \<Rightarrow> string list" where
  "named_commands str a fs k =
     (if args_force a \<or> args_out a @ ''/'' @ name k @ ''.'' @ file_type k \<notin> fs
      then [str (rendered a k)] else []) @
     (if args_legends a \<and> args_out a @ ''/'' @ name k @ ''_legends.stl'' \<notin> fs
      then [str ((rendered a k)\<lparr>name := name k @ ''_legends'', file_type := ''stl''\<rparr>)]
      else [])"

definition named_lines :: "(keycap \<Rightarrow> string) \<Rightarrow> args \<Rightarrow> string set \<Rightarrow> keycap \<Rightarrow> string list" where
  "named_lines str a fs k =
     (if args_force a \<or> args_out a @ ''/'' @ name k @ ''.'' @ file_type k \<notin> fs
      then [BRIGHT @ ''Rendering '' @ args_out a @ ''/'' @ name k @ ''.'' @ file_type k @ ''...'' @
              RESET_ALL,
            str (rendered a k)]
      else [BRIGHT @ args_out a @ ''/'' @ name k @ ''.'' @ file_type k @
              '' exists; skipping...'' @ RESET_ALL]) @
     (if \<not> args_legends a then []
      else if args_out a @ ''/'' @ name k @ ''_legends.stl'' \<notin> fs
      then [BRIGHT @ ''Rendering '' @ args_out a @ ''/'' @ name k @ ''_legends.stl'' @ ''...'' @
              RESET_ALL,
            str ((rendered a k)\<lparr>name := name k @ ''_legends'', file_type := ''stl''\<rparr>)]
      else [BRIGHT @ args_out a @ ''/'' @ name k @ ''_legends.stl'' @
              '' exists; skipping...'' @ RESET_ALL])"

text \<open>A command line and a state for the worked examples.\<close>

definition sample_args :: args where
  "sample_args = default_args\<lparr>args_out := ''out''\<rparr>"

definition sample_world :: world where
  "sample_world = module_loaded sample_catalog {''out'', ''out/l_Q.3mf'', ''out/r_Y_legends.stl''}"

text \<open>The run of the script that the worked examples of the command runner start from.\<close>

definition sample_run :: world where
  "sample_run =
     fst (generate ascii_lower sample_str ''usage: ...'' sample_mkdir
            [''scripts/ft-ergodox.py'', ''-o'', ''out''] sample_args sample_world)"

section \<open>The command runner on the event loop\<close>

text \<open>
  \<^verbatim>\<open>run_all_commands\<close> (lines 94-104) creates one coroutine
  \<^verbatim>\<open>run_command_on_loop(loop, command)\<close> for each command of \<^verbatim>\<open>COMMANDS\<close>, takes
  them as they complete and hands each result to \<^verbatim>\<open>process_result\<close> through
  \<^verbatim>\<open>ensure_future\<close>. The coroutines advance in an order that the event loop and the
  executor's threads choose, so the runner is a transition system: an event moves one
  coroutine past its next suspension point.

  The phases of a coroutine \<^verbatim>\<open>run_command_on_loop\<close> (lines 80-91):
  \<^item> \<open>Waiting\<close>: before \<^verbatim>\<open>async with SEM\<close> is entered;
  \<^item> \<open>Running\<close>: the semaphore is acquired and \<^verbatim>\<open>run_command\<close> runs in the
    executor;
  \<^item> \<open>Sleeping output\<close>: the output is collected, \<^verbatim>\<open>asyncio.sleep(1)\<close> is
    pending, the semaphore is still held;
  \<^item> \<open>Returned output\<close>: the block is left, the semaphore released, the output
    returned;
  \<^item> \<open>Failed e\<close>: the coroutine raised \<open>e\<close> (and left the block, if it was in it);
  \<^item> \<open>Consumed\<close>: the loop of \<^verbatim>\<open>run_all_commands\<close> has taken the result.
\<close>

datatype phase =
    Waiting
  | Running
  | Sleeping string
  | Returned string
  | Failed exn
  | Consumed

text \<open>
  The state of the runner: the permits left in the semaphore bound to \<^verbatim>\<open>SEM\<close>
  (\<open>None\<close> when the name has no binding), the list \<^verbatim>\<open>fs\<close> of coroutines with their
  commands, the results for which a \<^verbatim>\<open>process_result\<close> task is scheduled and has not
  run, the lines printed, the commands that the shell has run, and the exception that
  left \<^verbatim>\<open>run_all_commands\<close>, if any.
\<close>

record loop_state =
  permits :: "nat option"
  futures :: "(string \<times> phase) list"
  scheduled :: "string list"
  printed :: "string list"
  shell_log :: "string list"
  raised :: "exn option"

datatype event = Acquire nat | Complete nat | Wake nat | Collect nat | Process

text \<open>Line 101 and the call of line 755: every coroutine is created, none has started.\<close>

definition run_all_commands :: "world \<Rightarrow> loop_state" where
  "run_all_commands w =
     \<lparr>permits = SEM w,
      futures = map (\<lambda>command. (command, Waiting)) (COMMANDS w),
      scheduled = [],
      printed = stdout w,
      shell_log = [],
      raised = None\<rparr>"

text \<open>
  One event. \<open>None\<close> means that the event cannot happen in the state.
  \<^item> \<open>Acquire i\<close> (line 87): reading the global \<^verbatim>\<open>SEM\<close> raises \<^verbatim>\<open>NameError\<close>
    when it has no binding; a semaphore without permits blocks; otherwise a permit is
    taken.
  \<^item> \<open>Complete i\<close> (lines 88-89): \<^verbatim>\<open>run_command\<close> ends in the executor; an
    exception leaves the \<^verbatim>\<open>async with\<close> block, which releases the permit.
  \<^item> \<open>Wake i\<close> (lines 90-91): the sleep is over, the block is left, the permit
    released, the output returned.
  \<^item> \<open>Collect i\<close> (lines 102-104): \<^verbatim>\<open>yield from f\<close> on a completed coroutine gives
    its result, for which \<^verbatim>\<open>process_result\<close> is scheduled, or raises its exception,
    which leaves \<^verbatim>\<open>run_all_commands\<close> and \<^verbatim>\<open>run_until_complete\<close>.
  \<^item> \<open>Process\<close> (lines 107-112): the oldest scheduled \<^verbatim>\<open>process_result\<close> prints
    its result.
\<close>

definition fire :: "shell \<Rightarrow> event \<Rightarrow> loop_state \<Rightarrow> loop_state option" where
  "fire sh e s =
     (if raised s \<noteq> None then None
      else case e of
        Acquire i \<Rightarrow>
          (if i < length (futures s) then
             (case futures s ! i of
                (command, Waiting) \<Rightarrow>
                  (case permits s of
                     None \<Rightarrow> Some (s\<lparr>futures := (futures s)[i := (command, Failed (NameError ''SEM''))]\<rparr>)
                   | Some 0 \<Rightarrow> None
                   | Some (Suc n) \<Rightarrow>
                       Some (s\<lparr>permits := Some n, futures := (futures s)[i := (command, Running)]\<rparr>))
              | _ \<Rightarrow> None)
           else None)
      | Complete i \<Rightarrow>
          (if i < length (futures s) then
             (case futures s ! i of
                (command, Running) \<Rightarrow>
                  (case run_command sh command of
                     Inr output \<Rightarrow>
                       Some (s\<lparr>futures := (futures s)[i := (command, Sleeping output)],
                               shell_log := shell_log s @ [command]\<rparr>)
                   | Inl e \<Rightarrow>
                       Some (s\<lparr>permits := map_option Suc (permits s),
                               futures := (futures s)[i := (command, Failed e)],
                               shell_log := shell_log s @ [command]\<rparr>))
              | _ \<Rightarrow> None)
           else None)
      | Wake i \<Rightarrow>
          (if i < length (futures s) then
             (case futures s ! i of
                (command, Sleeping output) \<Rightarrow>
                  Some (s\<lparr>permits := map_option Suc (permits s),
                          futures := (futures s)[i := (command, Returned output)]\<rparr>)
              | _ \<Rightarrow> None)
           else None)
      | Collect i \<Rightarrow>
          (if i < length (futures s) then
             (case futures s ! i of
                (command, Returned result) \<Rightarrow>
                  Some (s\<lparr>futures := (futures s)[i := (command, Consumed)],
                          scheduled := scheduled s @ [result]\<rparr>)
              | (command, Failed e) \<Rightarrow> Some (s\<lparr>raised := Some e\<rparr>)
              | _ \<Rightarrow> None)
           else None)
      | Process \<Rightarrow>
          (case scheduled s of
             [] \<Rightarrow> None
           | result # rest \<Rightarrow> Some (s\<lparr>scheduled := rest, printed := printed s @ [result]\<rparr>)))"

text \<open>A run: the events of a list, one after the other.\<close>

fun run :: "shell \<Rightarrow> event list \<Rightarrow> loop_state \<Rightarrow> loop_state option" where
  "run sh [] s = Some s"
| "run sh (e # es) s = (case fire sh e s of None \<Rightarrow> None | Some s' \<Rightarrow> run sh es s')"

text \<open>
  \<^verbatim>\<open>run_until_complete\<close> returns when every result is taken; the
  \<^verbatim>\<open>process_result\<close> tasks scheduled before are run by then.
\<close>

definition finished :: "loop_state \<Rightarrow> bool" where
  "finished s =
     (list_all (\<lambda>f. snd f = Consumed) (futures s) \<and> scheduled s = [] \<and> raised s = None)"

text \<open>
  The commands running in the shell, and the coroutines inside \<^verbatim>\<open>async with SEM\<close>.
\<close>

fun holds_permit :: "phase \<Rightarrow> bool" where
  "holds_permit Running = True"
| "holds_permit (Sleeping output) = True"
| "holds_permit p = False"

definition executing :: "loop_state \<Rightarrow> nat" where
  "executing s = length (filter (\<lambda>f. snd f = Running) (futures s))"

definition holding :: "loop_state \<Rightarrow> nat" where
  "holding s = length (filter (\<lambda>f. holds_permit (snd f)) (futures s))"


text \<open>A shell for the worked examples: every command prints its own text and succeeds.\<close>

definition sample_shell :: shell where
  "sample_shell command = Inr (''ran '' @ command)"

text \<open>
  A schedule for \<open>n\<close> commands: each coroutine in turn goes through all its phases and
  its result is printed.
\<close>

fun one_by_one :: "nat \<Rightarrow> event list" where
  "one_by_one 0 = []"
| "one_by_one (Suc i) = one_by_one i @ [Acquire i, Complete i, Wake i, Collect i, Process]"

subsection \<open>Notions for the proofs about the runner\<close>

text \<open>
  The semaphore's invariant for \<open>n\<close> permits: the coroutines inside the block and the
  permits left add up to \<open>n\<close>.
\<close>

definition permits_inv :: "nat \<Rightarrow> loop_state \<Rightarrow> bool" where
  "permits_inv n s = (holding s \<le> n \<and> permits s = Some (n - holding s))"






section \<open>Theorems\<close>

subsection \<open>The command runner and exceptions\<close>

text \<open>
  Claim C3, as amended. \<^verbatim>\<open>run_command\<close> returns the combined output exactly when
  \<^verbatim>\<open>check_output\<close> returns it or raises \<^verbatim>\<open>CalledProcessError\<close> carrying it
  (a non-zero exit status); it raises exactly when \<^verbatim>\<open>check_output\<close> raises an
  exception of another class, and then it raises that same exception.
\<close>

theorem run_command_catches_only_CalledProcessError:
  "(run_command sh cmd = Inr output \<longleftrightarrow>
      (sh cmd = Inr output \<or> (\<exists>rc. sh cmd = Inl (CalledProcessError rc output)))) \<and>
   (run_command sh cmd = Inl e \<longleftrightarrow> (sh cmd = Inl e \<and> \<not> is_CalledProcessError e))"
  by (cases "sh cmd"; cases e; auto simp: run_command_def split: exn.splits)

theorem run_command_catches_only_CalledProcessError_witness:
  "run_command (\<lambda>c. Inl (CalledProcessError 2 ''oops'')) ''false'' = Inr ''oops'' \<and>
   run_command (\<lambda>c. Inr ''done'') ''true'' = Inr ''done''"
  using run_command_catches_only_CalledProcessError
          [of "\<lambda>c. Inl (CalledProcessError 2 ''oops'')" "''false''" "''oops''" "OtherError []"]
        run_command_catches_only_CalledProcessError
          [of "\<lambda>c. Inr ''done''" "''true''" "''done''" "OtherError []"]
  by simp

text \<open>
  The claim C3 as stated (\<^verbatim>\<open>run_command\<close> never raises) fails: when
  \<^verbatim>\<open>check_output\<close> raises a \<^verbatim>\<open>ValueError\<close> (as it does for a command string
  holding a NUL character), the exception propagates.
\<close>

theorem run_command_raises_counterexample:
  "run_command (\<lambda>c. if CHR 0x00 \<in> set c then Inl (ValueError ''embedded null byte'') else Inr [])
     [CHR ''a'', CHR 0x00] = Inl (ValueError ''embedded null byte'')"
  by (simp add: run_command_def)

section \<open>Generating the commands\<close>

subsection \<open>Facts about the generation steps\<close>

lemma out_file_frame [simp]:
  "out_file a (k\<lparr>output_path := p\<rparr>) = out_file a k"
  "out_file a (k\<lparr>use_colorscad := b\<rparr>) = out_file a k"
  "out_file a (k\<lparr>stem_color := c\<rparr>) = out_file a k"
  "out_file a (k\<lparr>render := r\<rparr>) = out_file a k"
  by (simp_all add: out_file_def)

lemma out_file_apply_flags [simp]: "out_file a (apply_flags b k) = out_file a k"
  by (simp add: apply_flags_def Let_def)

lemma print_fields [simp]:
  "files (print l w) = files w"
  "COMMANDS (print l w) = COMMANDS w"
  "KEYCAPS (print l w) = KEYCAPS w"
  "SEM (print l w) = SEM w"
  "stdout (print l w) = stdout w @ [l]"
  by (simp_all add: print_def)

lemma emit_fields [simp]:
  "files (emit str a k w) = files w"
  "COMMANDS (emit str a k w) = COMMANDS w @ [str k]"
  "KEYCAPS (emit str a k w) = KEYCAPS w"
  "SEM (emit str a k w) = SEM w"
  "stdout (emit str a k w) = stdout w @ [rendering_msg a k, str k]"
  by (simp_all add: emit_def Let_def)

lemma apply_flags_rendered: "apply_flags a (k\<lparr>output_path := args_out a\<rparr>) = rendered a k"
  by (simp add: apply_flags_def rendered_def Let_def)

lemma apply_flags_legend_mesh:
  "apply_flags a (k\<lparr>name := name k @ ''_legends'', output_path := args_out a,
                     render := [''legends''], file_type := ''stl''\<rparr>) = legend_mesh a k"
  by (simp add: apply_flags_def legend_mesh_def Let_def)

text \<open>
  A loop over the catalog whose body leaves the file system and the semaphore alone,
  and whose commands, printed lines and new keycap depend on the keycap and the files
  only.
\<close>

lemma for_each_uniform:
  assumes fs: "\<And>k w. files (snd (body k w)) = files w"
    and cs: "\<And>k w. COMMANDS (snd (body k w)) = COMMANDS w @ c (files w) k"
    and ks: "\<And>k w. fst (body k w) = g (files w) k"
    and sm: "\<And>k w. SEM (snd (body k w)) = SEM w"
    and so: "\<And>k w. stdout (snd (body k w)) = stdout w @ l (files w) k"
  shows "files (snd (for_each body xs w)) = files w \<and>
         COMMANDS (snd (for_each body xs w)) = COMMANDS w @ concat (map (c (files w)) xs) \<and>
         fst (for_each body xs w) = map (g (files w)) xs \<and>
         SEM (snd (for_each body xs w)) = SEM w \<and>
         stdout (snd (for_each body xs w)) = stdout w @ concat (map (l (files w)) xs)"
proof (induction xs arbitrary: w)
  case Nil
  show ?case by simp
next
  case (Cons k xs)
  obtain k' w1 where b: "body k w = (k', w1)" by (cases "body k w")
  obtain ks' w2 where r: "for_each body xs w1 = (ks', w2)" by (cases "for_each body xs w1")
  have f1: "files w1 = files w" using fs [of k w] b by simp
  have c1: "COMMANDS w1 = COMMANDS w @ c (files w) k" using cs [of k w] b by simp
  have k1: "k' = g (files w) k" using ks [of k w] b by simp
  have s1: "SEM w1 = SEM w" using sm [of k w] b by simp
  have o1: "stdout w1 = stdout w @ l (files w) k" using so [of k w] b by simp
  from Cons.IH [of w1] r f1 c1 k1 s1 o1 b show ?case by simp
qed

lemma concat_map_if:
  "concat (map (\<lambda>k. if P k then [f k] else []) xs) = map f (filter P xs)"
  by (induction xs) auto

lemma for_KEYCAPS_fields:
  "files (for_KEYCAPS body w) = files (snd (for_each body (KEYCAPS w) w))"
  "COMMANDS (for_KEYCAPS body w) = COMMANDS (snd (for_each body (KEYCAPS w) w))"
  "SEM (for_KEYCAPS body w) = SEM (snd (for_each body (KEYCAPS w) w))"
  "stdout (for_KEYCAPS body w) = stdout (snd (for_each body (KEYCAPS w) w))"
  "KEYCAPS (for_KEYCAPS body w) = fst (for_each body (KEYCAPS w) w)"
  by (simp_all add: for_KEYCAPS_def Let_def split: prod.splits)

text \<open>The first loop of the full batch.\<close>

lemma render_keycap_files: "files (snd (render_keycap str a k w)) = files w"
  by (simp add: render_keycap_def Let_def)

lemma render_keycap_SEM: "SEM (snd (render_keycap str a k w)) = SEM w"
  by (simp add: render_keycap_def Let_def)

lemma render_keycap_COMMANDS:
  "COMMANDS (snd (render_keycap str a k w)) =
     COMMANDS w @
     (if args_force a \<or> args_out a @ ''/'' @ name k @ ''.'' @ file_type k \<notin> files w
      then [str (rendered a k)] else [])"
  by (simp add: render_keycap_def Let_def apply_flags_rendered) (simp add: out_file_def)

lemma render_keycap_fst: "fst (render_keycap str a k w) = after_first_loop a (files w) k"
  by (simp add: render_keycap_def Let_def apply_flags_rendered after_first_loop_def)
     (simp add: out_file_def)

lemma render_keycap_stdout:
  "stdout (snd (render_keycap str a k w)) = stdout w @ keycap_lines str a (files w) k"
  by (simp add: render_keycap_def Let_def apply_flags_rendered keycap_lines_def
      rendering_msg_def skipping_msg_def)
     (simp add: out_file_def rendered_def)

lemmas first_loop = for_each_uniform [where body = "render_keycap str a" for str a,
    OF render_keycap_files render_keycap_COMMANDS render_keycap_fst render_keycap_SEM
      render_keycap_stdout]

text \<open>The second loop of the full batch.\<close>

lemma render_legend_files: "files (snd (render_legend str a k w)) = files w"
  by (simp add: render_legend_def Let_def)

lemma render_legend_SEM: "SEM (snd (render_legend str a k w)) = SEM w"
  by (simp add: render_legend_def Let_def)

lemma out_file_legend:
  "out_file a (k\<lparr>name := name k @ ''_legends'', output_path := p, render := r, file_type := ''stl''\<rparr>) =
     args_out a @ ''/'' @ name k @ ''_legends.stl''"
  by (simp add: out_file_def)

lemma render_legend_COMMANDS:
  "COMMANDS (snd (render_legend str a k w)) =
     COMMANDS w @
     (if legends k \<noteq> [''''] \<and> (args_force a \<or> args_out a @ ''/'' @ name k @ ''_legends.stl'' \<notin> files w)
      then [str (legend_mesh a k)]
      else [])"
  by (simp add: render_legend_def Let_def out_file_legend apply_flags_legend_mesh)

lemma render_legend_fst: "fst (render_legend str a k w) = after_legend_loop a (files w) k"
  by (simp add: render_legend_def Let_def out_file_legend apply_flags_legend_mesh
      after_legend_loop_def renamed_def)

lemma render_legend_stdout:
  "stdout (snd (render_legend str a k w)) = stdout w @ legend_lines str a (files w) k"
  by (simp add: render_legend_def Let_def out_file_legend apply_flags_legend_mesh
      legend_lines_def rendering_msg_def skipping_msg_def)
     (simp add: legend_mesh_def out_file_def)

lemmas second_loop = for_each_uniform [where body = "render_legend str a" for str a,
    OF render_legend_files render_legend_COMMANDS render_legend_fst render_legend_SEM
      render_legend_stdout]

text \<open>The full batch as a whole.\<close>

lemma legend_mesh_after_first:
  "legend_mesh a (after_first_loop a fs k) = legend_mesh a k"
  by (simp add: legend_mesh_def after_first_loop_def rendered_def)

lemma after_first_loop_frame [simp]:
  "name (after_first_loop a fs k) = name k"
  "legends (after_first_loop a fs k) = legends k"
  "file_type (after_first_loop a fs k) = file_type k"
  "render (after_first_loop a fs k) = render k"
  by (simp_all add: after_first_loop_def rendered_def)

lemma legend_lines_after_first:
  "legend_lines str a fs (after_first_loop a fs' k) = legend_lines str a fs k"
  by (simp add: legend_lines_def legend_mesh_after_first)

lemma full_batch_exact:
  "files (full_batch str a w) = files w \<and>
   SEM (full_batch str a w) = SEM w \<and>
   COMMANDS (full_batch str a w) =
     COMMANDS w @
     map (\<lambda>k. str (rendered a k))
       (filter (\<lambda>k. args_force a \<or> args_out a @ ''/'' @ name k @ ''.'' @ file_type k \<notin> files w)
          (KEYCAPS w)) @
     (if args_legends a
      then map (\<lambda>k. str (legend_mesh a k))
             (filter (\<lambda>k. legends k \<noteq> [''''] \<and>
                          (args_force a \<or> args_out a @ ''/'' @ name k @ ''_legends.stl'' \<notin> files w))
                (KEYCAPS w))
      else []) \<and>
   stdout (full_batch str a w) =
     stdout w @ concat (map (keycap_lines str a (files w)) (KEYCAPS w)) @
     (if args_legends a then concat (map (legend_lines str a (files w)) (KEYCAPS w)) else []) \<and>
   KEYCAPS (full_batch str a w) =
     map (\<lambda>k. if args_legends a
               then after_legend_loop a (files w) (after_first_loop a (files w) k)
               else after_first_loop a (files w) k) (KEYCAPS w)"
proof -
  let ?w1 = "for_KEYCAPS (render_keycap str a) w"
  note l1 = first_loop [of str a "KEYCAPS w" w]
  have k1: "KEYCAPS ?w1 = map (after_first_loop a (files w)) (KEYCAPS w)"
    and f1: "files ?w1 = files w" and s1: "SEM ?w1 = SEM w"
    and o1: "stdout ?w1 = stdout w @ concat (map (keycap_lines str a (files w)) (KEYCAPS w))"
    using l1 by (simp_all add: for_KEYCAPS_fields)
  have c1: "COMMANDS ?w1 = COMMANDS w @
     map (\<lambda>k. str (rendered a k))
       (filter (\<lambda>k. args_force a \<or> args_out a @ ''/'' @ name k @ ''.'' @ file_type k \<notin> files w)
          (KEYCAPS w))"
    using l1 by (simp add: for_KEYCAPS_fields concat_map_if)
  show ?thesis
  proof (cases "args_legends a")
    case False
    then show ?thesis using k1 f1 s1 o1 c1 by (simp add: full_batch_def Let_def)
  next
    case True
    let ?w2 = "for_KEYCAPS (render_legend str a) ?w1"
    note l2 = second_loop [of str a "KEYCAPS ?w1" ?w1]
    have k2: "KEYCAPS ?w2 = map (after_legend_loop a (files w)) (KEYCAPS ?w1)"
      and f2: "files ?w2 = files w" and s2: "SEM ?w2 = SEM w"
      and o2: "stdout ?w2 = stdout ?w1 @ concat (map (legend_lines str a (files w)) (KEYCAPS ?w1))"
      using l2 f1 s1 by (simp_all add: for_KEYCAPS_fields)
    have c2: "COMMANDS ?w2 = COMMANDS ?w1 @
       map (\<lambda>k. str (legend_mesh a k))
             (filter (\<lambda>k. legends k \<noteq> [''''] \<and>
                          (args_force a \<or> args_out a @ ''/'' @ name k @ ''_legends.stl'' \<notin> files w))
                (KEYCAPS ?w1))"
      using l2 f1 by (simp add: for_KEYCAPS_fields concat_map_if)
    have c3: "map (\<lambda>k. str (legend_mesh a k))
             (filter (\<lambda>k. legends k \<noteq> [''''] \<and>
                          (args_force a \<or> args_out a @ ''/'' @ name k @ ''_legends.stl'' \<notin> files w))
                (KEYCAPS ?w1)) =
          map (\<lambda>k. str (legend_mesh a k))
             (filter (\<lambda>k. legends k \<noteq> [''''] \<and>
                          (args_force a \<or> args_out a @ ''/'' @ name k @ ''_legends.stl'' \<notin> files w))
                (KEYCAPS w))"
      unfolding k1 by (induction "KEYCAPS w" rule: list.induct)
        (simp_all add: filter_map comp_def legend_mesh_after_first)
    have o3: "concat (map (legend_lines str a (files w)) (KEYCAPS ?w1)) =
              concat (map (legend_lines str a (files w)) (KEYCAPS w))"
      unfolding k1 by (simp add: comp_def legend_lines_after_first)
    show ?thesis
      using True k2 f2 s2 o2 c2 k1 o1 c1 unfolding c3 o3
      by (simp add: full_batch_def Let_def comp_def)
  qed
qed

text \<open>The named branch.\<close>

lemma named_render_world:
  "files (snd (named_render str a k w)) = files w"
  "SEM (snd (named_render str a k w)) = SEM w"
  "KEYCAPS (snd (named_render str a k w)) = KEYCAPS w"
  "COMMANDS (snd (named_render str a k w)) =
     COMMANDS w @
     (if args_force a \<or> args_out a @ ''/'' @ name k @ ''.'' @ file_type k \<notin> files w
      then [str (rendered a k)] else [])"
  "fst (named_render str a k w) = rendered a k"
  "stdout (snd (named_render str a k w)) = stdout w @ keycap_lines str a (files w) k"
  by (simp_all add: named_render_def Let_def apply_flags_rendered keycap_lines_def
      rendering_msg_def skipping_msg_def out_file_def rendered_def)

lemma named_legends_world:
  "files (snd (named_legends str a k w)) = files w"
  "SEM (snd (named_legends str a k w)) = SEM w"
  "KEYCAPS (snd (named_legends str a k w)) = KEYCAPS w"
  by (simp_all add: named_legends_def Let_def)

lemma named_legends_off: "\<not> args_legends a \<Longrightarrow> named_legends str a k w = (k, w)"
  by (simp add: named_legends_def)

lemma named_keycap_other:
  "lower (name k) \<noteq> lower nm \<Longrightarrow> named_keycap lower str a nm k wm = (k, wm)"
  by (simp add: named_keycap_def)

lemma named_keycap_matched:
  "snd (snd (named_keycap lower str a nm k (w, m))) = (m \<or> lower (name k) = lower nm)"
  by (simp add: named_keycap_def Let_def split: prod.splits)

lemma named_keycap_world:
  "files (fst (snd (named_keycap lower str a nm k (w, m)))) = files w \<and>
   SEM (fst (snd (named_keycap lower str a nm k (w, m)))) = SEM w"
proof (cases "lower (name k) = lower nm")
  case False
  then show ?thesis by (simp add: named_keycap_def)
next
  case True
  obtain k1 w1 where r: "named_render str a k w = (k1, w1)" by (cases "named_render str a k w")
  obtain k2 w2 where l: "named_legends str a k1 w1 = (k2, w2)" by (cases "named_legends str a k1 w1")
  have "files w1 = files w" "SEM w1 = SEM w"
    using named_render_world(1,2) [of str a k w] r by simp_all
  moreover have "files w2 = files w1" "SEM w2 = SEM w1"
    using named_legends_world(1,2) [of str a k1 w1] l by simp_all
  ultimately show ?thesis using True r l by (simp add: named_keycap_def)
qed

lemma named_keycap_plain:
  assumes "\<not> args_legends a"
  shows "fst (named_keycap lower str a nm k wm) =
           (if lower (name k) = lower nm then rendered a k else k)"
proof (cases "lower (name k) = lower nm")
  case False
  then show ?thesis by (simp add: named_keycap_def)
next
  case True
  obtain k1 w1 where r: "named_render str a k (fst wm) = (k1, w1)"
    by (cases "named_render str a k (fst wm)")
  have "k1 = rendered a k" using named_render_world(5) [of str a k "fst wm"] r by simp
  then show ?thesis using True r assms by (simp add: named_keycap_def named_legends_off)
qed

lemma named_each_matched:
  "snd (snd (named_each lower str a nm ks (w, m))) =
     (m \<or> (\<exists>k \<in> set ks. lower (name k) = lower nm))"
proof (induction ks arbitrary: w m)
  case Nil
  show ?case by simp
next
  case (Cons k ks)
  obtain k' w1 m1 where b: "named_keycap lower str a nm k (w, m) = (k', w1, m1)"
    by (cases "named_keycap lower str a nm k (w, m)") auto
  obtain ks' w2 m2 where r: "named_each lower str a nm ks (w1, m1) = (ks', w2, m2)"
    by (cases "named_each lower str a nm ks (w1, m1)") auto
  have m1: "m1 = (m \<or> lower (name k) = lower nm)"
    using named_keycap_matched [of lower str a nm k w m] b by simp
  show ?case using Cons.IH [of w1 m1] b r m1 by auto
qed

lemma named_each_world:
  "files (fst (snd (named_each lower str a nm ks (w, m)))) = files w \<and>
   SEM (fst (snd (named_each lower str a nm ks (w, m)))) = SEM w"
proof (induction ks arbitrary: w m)
  case Nil
  show ?case by simp
next
  case (Cons k ks)
  obtain k' w1 m1 where b: "named_keycap lower str a nm k (w, m) = (k', w1, m1)"
    by (cases "named_keycap lower str a nm k (w, m)") auto
  obtain ks' w2 m2 where r: "named_each lower str a nm ks (w1, m1) = (ks', w2, m2)"
    by (cases "named_each lower str a nm ks (w1, m1)") auto
  have "files w1 = files w \<and> SEM w1 = SEM w"
    using named_keycap_world [of lower str a nm k w m] b by simp
  then show ?case using Cons.IH [of w1 m1] b r by simp
qed

lemma named_each_no_match:
  "\<forall>k \<in> set ks. lower (name k) \<noteq> lower nm \<Longrightarrow> named_each lower str a nm ks wm = (ks, wm)"
  by (induction ks arbitrary: wm) (simp_all add: named_keycap_other)

lemma named_each_plain:
  assumes "\<not> args_legends a"
  shows "fst (named_each lower str a nm ks wm) =
           map (\<lambda>k. if lower (name k) = lower nm then rendered a k else k) ks"
proof (induction ks arbitrary: wm)
  case Nil
  show ?case by simp
next
  case (Cons k ks)
  obtain k' wm1 where b: "named_keycap lower str a nm k wm = (k', wm1)"
    by (cases "named_keycap lower str a nm k wm")
  obtain ks' wm2 where r: "named_each lower str a nm ks wm1 = (ks', wm2)"
    by (cases "named_each lower str a nm ks wm1")
  have "k' = (if lower (name k) = lower nm then rendered a k else k)"
    using named_keycap_plain [OF assms, of lower str nm k wm] b by simp
  then show ?case using Cons.IH [of wm1] b r by simp
qed

lemma names_loop_matched_stays:
  "snd (names_loop lower str a nms (w, True)) = True"
proof (induction nms arbitrary: w)
  case Nil
  show ?case by simp
next
  case (Cons nm nms)
  obtain ks' w1 m1 where b: "named_each lower str a nm (KEYCAPS w) (w, True) = (ks', w1, m1)"
    by (cases "named_each lower str a nm (KEYCAPS w) (w, True)") auto
  have "m1 = True" using named_each_matched [of lower str a nm "KEYCAPS w" w True] b by simp
  then show ?case using Cons.IH b by simp
qed

lemma names_loop_no_match:
  "\<forall>n \<in> set nms. \<forall>k \<in> set (KEYCAPS w). lower (name k) \<noteq> lower n \<Longrightarrow>
   names_loop lower str a nms (w, m) = (w, m)"
proof (induction nms arbitrary: w)
  case Nil
  show ?case by simp
next
  case (Cons nm nms)
  then have "named_each lower str a nm (KEYCAPS w) (w, m) = (KEYCAPS w, w, m)"
    using named_each_no_match [of "KEYCAPS w" lower nm str a "(w, m)"] by simp
  then show ?case using Cons by simp
qed

lemma names_loop_matched:
  "snd (names_loop lower str a nms (w, m)) =
     (m \<or> (\<exists>n \<in> set nms. \<exists>k \<in> set (KEYCAPS w). lower (name k) = lower n))"
proof (induction nms arbitrary: w m)
  case Nil
  show ?case by simp
next
  case (Cons nm nms)
  obtain ks' w1 m1 where b: "named_each lower str a nm (KEYCAPS w) (w, m) = (ks', w1, m1)"
    by (cases "named_each lower str a nm (KEYCAPS w) (w, m)") auto
  have m1: "m1 = (m \<or> (\<exists>k \<in> set (KEYCAPS w). lower (name k) = lower nm))"
    using named_each_matched [of lower str a nm "KEYCAPS w" w m] b by simp
  show ?case
  proof (cases m1)
    case True
    then show ?thesis using names_loop_matched_stays [of lower str a nms] b m1 by auto
  next
    case False
    then have no: "\<forall>k \<in> set (KEYCAPS w). lower (name k) \<noteq> lower nm" and "\<not> m"
      using m1 by auto
    then have "named_each lower str a nm (KEYCAPS w) (w, m) = (KEYCAPS w, w, m)"
      using named_each_no_match [of "KEYCAPS w" lower nm str a "(w, m)"] by simp
    then show ?thesis using Cons.IH [of w m] no by simp
  qed
qed

lemma names_loop_world:
  "files (fst (names_loop lower str a nms (w, m))) = files w \<and>
   SEM (fst (names_loop lower str a nms (w, m))) = SEM w"
proof (induction nms arbitrary: w m)
  case Nil
  show ?case by simp
next
  case (Cons nm nms)
  obtain ks' w1 m1 where b: "named_each lower str a nm (KEYCAPS w) (w, m) = (ks', w1, m1)"
    by (cases "named_each lower str a nm (KEYCAPS w) (w, m)") auto
  have "files w1 = files w \<and> SEM w1 = SEM w"
    using named_each_world [of lower str a nm "KEYCAPS w" w m] b by simp
  then show ?case using Cons.IH [of "w1\<lparr>KEYCAPS := ks'\<rparr>" m1] b by simp
qed

lemma rendered_idem [simp]:
  "rendered a (rendered a k) = rendered a k" "name (rendered a k) = name k"
  by (simp_all add: rendered_def)


lemma named_batch_fields:
  "KEYCAPS (named_batch lower str a w) =
     KEYCAPS (fst (names_loop lower str a (args_names a) (w, False)))"
  "COMMANDS (named_batch lower str a w) =
     COMMANDS (fst (names_loop lower str a (args_names a) (w, False)))"
  "files (named_batch lower str a w) =
     files (fst (names_loop lower str a (args_names a) (w, False)))"
  "SEM (named_batch lower str a w) =
     SEM (fst (names_loop lower str a (args_names a) (w, False)))"
  "stdout (named_batch lower str a w) =
     stdout (fst (names_loop lower str a (args_names a) (w, False))) @
     (if snd (names_loop lower str a (args_names a) (w, False)) then []
      else [not_found_msg (last (args_names a))])"
  by (cases "names_loop lower str a (args_names a) (w, False)"; simp add: named_batch_def)+

text \<open>The \<^verbatim>\<open>__main__\<close> block.\<close>

lemma print_keycaps_fields [simp]:
  "KEYCAPS (print_keycaps w) = KEYCAPS w"
  "COMMANDS (print_keycaps w) = COMMANDS w"
  "files (print_keycaps w) = files w"
  "SEM (print_keycaps w) = SEM w"
  "stdout (print_keycaps w) =
     stdout w @ [BRIGHT @ ''Here's all the keycaps we can render:'' @ [CHR 0x0A] @ RESET_ALL,
                 join '', '' (map name (KEYCAPS w))]"
  by (simp_all add: print_keycaps_def Let_def)

lemma generate_commands_world:
  "files (generate_commands lower str a w) = files w"
  "SEM (generate_commands lower str a w) = SEM w"
  using names_loop_world [of lower str a "args_names a"
      "print (BRIGHT @ ''Outputting to: '' @ args_out a @ RESET_ALL) w" False]
    full_batch_exact [of str a "print (BRIGHT @ ''Outputting to: '' @ args_out a @ RESET_ALL) w"]
  by (simp_all add: generate_commands_def Let_def named_batch_fields)

lemma generate_Proceed:
  assumes "generate lower str help mkdir argv a w = (w', Proceed)"
  obtains w1 where "w' = generate_commands lower str a w1"
    and "KEYCAPS w1 = KEYCAPS w" and "COMMANDS w1 = COMMANDS w"
    and "SEM w1 = Some (nat (args_jobs a))" and "0 \<le> args_jobs a"
    and "length argv \<noteq> 1" and "\<not> args_keycaps a"
    and "stdout w1 = stdout w @
           (if args_out a \<in> files w then []
            else [BRIGHT @ ''Output path, '' @ [CHR 0x27] @ args_out a @ [CHR 0x27] @
                    '' does not exist; making it...'' @ RESET_ALL])"
    and "args_out a \<in> files w \<longrightarrow> files w1 = files w"
    and "args_out a \<notin> files w \<longrightarrow> mkdir (args_out a) (files w) = Inr (files w1)"
proof (cases "args_out a \<in> files w")
  case True
  with assms show ?thesis
    by (intro that [of "w\<lparr>SEM := Some (nat (args_jobs a))\<rparr>"])
       (auto simp: generate_def Let_def split: if_splits)
next
  case False
  with assms obtain fs where m: "mkdir (args_out a) (files w) = Inr fs"
    by (auto simp: generate_def Let_def split: if_splits sum.splits)
  with assms False show ?thesis
    by (intro that [of "(print (BRIGHT @ ''Output path, '' @ [CHR 0x27] @ args_out a @ [CHR 0x27] @
                    '' does not exist; making it...'' @ RESET_ALL)
                    (w\<lparr>SEM := Some (nat (args_jobs a))\<rparr>))\<lparr>files := fs\<rparr>"])
       (auto simp: generate_def Let_def split: if_splits)
qed

lemma generate_SEM:
  assumes "generate lower str help mkdir argv a w = (w', Proceed)"
  shows "0 \<le> args_jobs a \<and> SEM w' = Some (nat (args_jobs a))"
  using assms by (rule generate_Proceed) (simp add: generate_commands_world)


text \<open>The commands and the lines of the named branch.\<close>

lemma named_legends_out:
  "COMMANDS (snd (named_legends str a k w)) =
     COMMANDS w @
     (if args_legends a \<and> args_out a @ ''/'' @ name k @ ''_legends.stl'' \<notin> files w
      then [str (k\<lparr>name := name k @ ''_legends'', file_type := ''stl''\<rparr>)] else [])"
  "stdout (snd (named_legends str a k w)) =
     stdout w @
     (if \<not> args_legends a then []
      else if args_out a @ ''/'' @ name k @ ''_legends.stl'' \<notin> files w
      then [BRIGHT @ ''Rendering '' @ args_out a @ ''/'' @ name k @ ''_legends.stl'' @ ''...'' @
              RESET_ALL,
            str (k\<lparr>name := name k @ ''_legends'', file_type := ''stl''\<rparr>)]
      else [BRIGHT @ args_out a @ ''/'' @ name k @ ''_legends.stl'' @
              '' exists; skipping...'' @ RESET_ALL])"
  by (simp_all add: named_legends_def Let_def out_file_def emit_def print_def rendering_msg_def
      skipping_msg_def)

lemma named_keycap_out:
  assumes "lower (name k) = lower nm"
  shows "COMMANDS (fst (snd (named_keycap lower str a nm k (w, m)))) =
           COMMANDS w @ named_commands str a (files w) k"
    and "stdout (fst (snd (named_keycap lower str a nm k (w, m)))) =
           stdout w @ named_lines str a (files w) k"
proof -
  obtain k1 w1 where r: "named_render str a k w = (k1, w1)" by (cases "named_render str a k w")
  obtain k2 w2 where l: "named_legends str a k1 w1 = (k2, w2)" by (cases "named_legends str a k1 w1")
  have k1: "k1 = rendered a k" and f1: "files w1 = files w"
    and c1: "COMMANDS w1 = COMMANDS w @
     (if args_force a \<or> args_out a @ ''/'' @ name k @ ''.'' @ file_type k \<notin> files w
      then [str (rendered a k)] else [])"
    and o1: "stdout w1 = stdout w @ keycap_lines str a (files w) k"
    using named_render_world [of str a k w] r by simp_all
  have c2: "COMMANDS w2 = COMMANDS w1 @
     (if args_legends a \<and> args_out a @ ''/'' @ name k1 @ ''_legends.stl'' \<notin> files w1
      then [str (k1\<lparr>name := name k1 @ ''_legends'', file_type := ''stl''\<rparr>)] else [])"
    using named_legends_out(1) [of str a k1 w1] l by simp
  have o2: "stdout w2 = stdout w1 @
     (if \<not> args_legends a then []
      else if args_out a @ ''/'' @ name k1 @ ''_legends.stl'' \<notin> files w1
      then [BRIGHT @ ''Rendering '' @ args_out a @ ''/'' @ name k1 @ ''_legends.stl'' @ ''...'' @
              RESET_ALL,
            str (k1\<lparr>name := name k1 @ ''_legends'', file_type := ''stl''\<rparr>)]
      else [BRIGHT @ args_out a @ ''/'' @ name k1 @ ''_legends.stl'' @
              '' exists; skipping...'' @ RESET_ALL])"
    using named_legends_out(2) [of str a k1 w1] l by simp
  have e: "named_keycap lower str a nm k (w, m) = (k2, w2, True)"
    using assms r l by (simp add: named_keycap_def)
  show "COMMANDS (fst (snd (named_keycap lower str a nm k (w, m)))) =
           COMMANDS w @ named_commands str a (files w) k"
    unfolding e using c1 c2 by (simp add: named_commands_def k1 f1)
  show "stdout (fst (snd (named_keycap lower str a nm k (w, m)))) =
           stdout w @ named_lines str a (files w) k"
    unfolding e using o1 o2 by (simp add: named_lines_def keycap_lines_def k1 f1)
qed

lemma named_each_out:
  "COMMANDS (fst (snd (named_each lower str a nm ks (w, m)))) =
     COMMANDS w @
     concat (map (named_commands str a (files w)) (filter (\<lambda>k. lower (name k) = lower nm) ks)) \<and>
   stdout (fst (snd (named_each lower str a nm ks (w, m)))) =
     stdout w @
     concat (map (named_lines str a (files w)) (filter (\<lambda>k. lower (name k) = lower nm) ks))"
proof (induction ks arbitrary: w m)
  case Nil
  show ?case by simp
next
  case (Cons k ks)
  obtain k' w1 m1 where b: "named_keycap lower str a nm k (w, m) = (k', w1, m1)"
    by (cases "named_keycap lower str a nm k (w, m)") auto
  obtain ks' w2 m2 where r: "named_each lower str a nm ks (w1, m1) = (ks', w2, m2)"
    by (cases "named_each lower str a nm ks (w1, m1)") auto
  have f: "files w1 = files w" using named_keycap_world [of lower str a nm k w m] b by simp
  show ?case
  proof (cases "lower (name k) = lower nm")
    case True
    have "COMMANDS w1 = COMMANDS w @ named_commands str a (files w) k"
      "stdout w1 = stdout w @ named_lines str a (files w) k"
      using named_keycap_out [OF True, of str a w m] b by simp_all
    then show ?thesis using Cons.IH [of w1 m1] b r f True by simp
  next
    case False
    then have "w1 = w" using named_keycap_other [of lower k nm str a "(w, m)"] b by simp
    then show ?thesis using Cons.IH [of w1 m1] b r False by simp
  qed
qed

lemma names_loop_single:
  "COMMANDS (fst (names_loop lower str a [nm] (w, m))) =
     COMMANDS w @
     concat (map (named_commands str a (files w))
               (filter (\<lambda>k. lower (name k) = lower nm) (KEYCAPS w))) \<and>
   stdout (fst (names_loop lower str a [nm] (w, m))) =
     stdout w @
     concat (map (named_lines str a (files w))
               (filter (\<lambda>k. lower (name k) = lower nm) (KEYCAPS w)))"
proof -
  obtain ks' w1 m1 where b: "named_each lower str a nm (KEYCAPS w) (w, m) = (ks', w1, m1)"
    by (cases "named_each lower str a nm (KEYCAPS w) (w, m)") auto
  show ?thesis using named_each_out [of lower str a nm "KEYCAPS w" w m] b by simp
qed

lemma named_out_rendered:
  assumes "\<not> args_legends a"
  shows "named_commands str a fs (rendered a k) = named_commands str a fs k"
    and "named_lines str a fs (rendered a k) = named_lines str a fs k"
  using assms by (simp_all add: named_commands_def named_lines_def rendered_def)

lemma concat_filter_rendered:
  assumes "\<And>k. f (rendered a k) = f k"
  shows "concat (map f (filter (\<lambda>k. P (name k)) (map (\<lambda>k. if Q k then rendered a k else k) ks))) =
         concat (map f (filter (\<lambda>k. P (name k)) ks))"
  by (induction ks) (simp_all add: assms)

lemma names_loop_plain_out:
  assumes "\<not> args_legends a"
  shows "COMMANDS (fst (names_loop lower str a nms (w, m))) =
     COMMANDS w @
     concat (map (\<lambda>nm. concat (map (named_commands str a (files w))
               (filter (\<lambda>k. lower (name k) = lower nm) (KEYCAPS w)))) nms) \<and>
   stdout (fst (names_loop lower str a nms (w, m))) =
     stdout w @
     concat (map (\<lambda>nm. concat (map (named_lines str a (files w))
               (filter (\<lambda>k. lower (name k) = lower nm) (KEYCAPS w)))) nms)"
proof (induction nms arbitrary: w m)
  case Nil
  show ?case by simp
next
  case (Cons nm nms)
  obtain ks' w1 m1 where b: "named_each lower str a nm (KEYCAPS w) (w, m) = (ks', w1, m1)"
    by (cases "named_each lower str a nm (KEYCAPS w) (w, m)") auto
  have k: "ks' = map (\<lambda>k. if lower (name k) = lower nm then rendered a k else k) (KEYCAPS w)"
    using named_each_plain [OF assms, of lower str nm "KEYCAPS w" "(w, m)"] b by simp
  have f: "files w1 = files w" using named_each_world [of lower str a nm "KEYCAPS w" w m] b by simp
  have o: "COMMANDS w1 = COMMANDS w @
     concat (map (named_commands str a (files w))
               (filter (\<lambda>k. lower (name k) = lower nm) (KEYCAPS w)))"
    "stdout w1 = stdout w @
     concat (map (named_lines str a (files w))
               (filter (\<lambda>k. lower (name k) = lower nm) (KEYCAPS w)))"
    using named_each_out [of lower str a nm "KEYCAPS w" w m] b by simp_all
  have c: "concat (map (named_commands str a (files w))
               (filter (\<lambda>k. lower (name k) = lower n) ks')) =
           concat (map (named_commands str a (files w))
               (filter (\<lambda>k. lower (name k) = lower n) (KEYCAPS w)))" for n
    unfolding k
    by (rule concat_filter_rendered [where P = "\<lambda>x. lower x = lower n"])
       (rule named_out_rendered(1) [OF assms])
  have l: "concat (map (named_lines str a (files w))
               (filter (\<lambda>k. lower (name k) = lower n) ks')) =
           concat (map (named_lines str a (files w))
               (filter (\<lambda>k. lower (name k) = lower n) (KEYCAPS w)))" for n
    unfolding k
    by (rule concat_filter_rendered [where P = "\<lambda>x. lower x = lower n"])
       (rule named_out_rendered(2) [OF assms])
  show ?case using Cons.IH [of "w1\<lparr>KEYCAPS := ks'\<rparr>" m1] b o f by (simp add: c l)
qed

lemma names_loop_out:
  assumes "\<not> args_legends a \<or> length nms = 1"
  shows "COMMANDS (fst (names_loop lower str a nms (w, m))) =
     COMMANDS w @
     concat (map (\<lambda>nm. concat (map (named_commands str a (files w))
               (filter (\<lambda>k. lower (name k) = lower nm) (KEYCAPS w)))) nms) \<and>
   stdout (fst (names_loop lower str a nms (w, m))) =
     stdout w @
     concat (map (\<lambda>nm. concat (map (named_lines str a (files w))
               (filter (\<lambda>k. lower (name k) = lower nm) (KEYCAPS w)))) nms)"
proof (cases "args_legends a")
  case False
  then show ?thesis by (rule names_loop_plain_out)
next
  case True
  with assms obtain nm where "nms = [nm]" by (cases nms) auto
  then show ?thesis using names_loop_single [of lower str a nm w m] by simp
qed

subsection \<open>The worked data\<close>

lemma generate_plain:
  assumes "0 \<le> args_jobs a" "length argv \<noteq> 1" "\<not> args_keycaps a" "args_out a \<in> files w"
  shows "generate lower str help mkdir argv a w =
           (generate_commands lower str a (w\<lparr>SEM := Some (nat (args_jobs a))\<rparr>), Proceed)"
  using assms by (simp add: generate_def Let_def)

lemmas sample_defs =
  sample_args_def sample_world_def default_args_def module_loaded_def sample_catalog_def
  sample_str_def named_with_def only_named_def Keycap_defaults_def
  ergodox_ft_base_def ergodox_ft_wpm_def ergodox_ft_space_def ergodox_ft_2UV_icon_def
  and_then_def setitem_def Keycap_def postinit_def Let_def
  OPENSCAD_PATH_def COLORSCAD_PATH_def FILE_TYPE_def

lemma sample_catalog_fields:
  "map name sample_catalog = [''l_Q'', ''r_Y'', ''l_space'']"
  "map legends sample_catalog = [[''Q'', ''F6''], [''Y'', ''WPM 0''], ['''']]"
  "map file_type sample_catalog = [''3mf'', ''3mf'', ''3mf'']"
  "map render sample_catalog = [[''keycap'', ''stem''], [''keycap'', ''stem''], [''keycap'', ''stem'']]"
  "length sample_catalog = 3"
  by (simp_all add: sample_defs)

lemma sample_catalog_entries:
  obtains kQ kY kS where "sample_catalog = [kQ, kY, kS]"
    and "name kQ = ''l_Q''" and "name kY = ''r_Y''" and "name kS = ''l_space''"
    and "legends kQ = [''Q'', ''F6'']" and "legends kY = [''Y'', ''WPM 0'']" and "legends kS = ['''']"
    and "file_type kQ = ''3mf''" and "file_type kY = ''3mf''" and "file_type kS = ''3mf''"
    and "render kQ = [''keycap'', ''stem'']" and "render kY = [''keycap'', ''stem'']"
    and "render kS = [''keycap'', ''stem'']"
proof -
  obtain kQ where q: "ergodox_ft_base Keycap_defaults (named_with ''l_Q'' [''Q'', ''F6'']) = Inr kQ"
    by (simp add: ergodox_ft_base_def Let_def)
  obtain kY where y: "ergodox_ft_wpm Keycap_defaults (named_with ''r_Y'' [''Y'', ''WPM 0'']) = Inr kY"
    by (simp add: ergodox_ft_wpm_def ergodox_ft_base_def Let_def and_then_def setitem_def
        postinit_def named_with_def)
  obtain kS where s: "ergodox_ft_space Keycap_defaults (only_named ''l_space'') = Inr kS"
    by (simp add: ergodox_ft_space_def ergodox_ft_2UV_icon_def ergodox_ft_base_def Let_def
        and_then_def setitem_def postinit_def only_named_def)
  have c: "sample_catalog = [kQ, kY, kS]"
    by (simp add: sample_catalog_def q y s)
  have fq: "name kQ = ''l_Q''" "legends kQ = [''Q'', ''F6'']" "file_type kQ = ''3mf''"
    "render kQ = [''keycap'', ''stem'']"
    using q by (auto simp: sample_defs)
  have fy: "name kY = ''r_Y''" "legends kY = [''Y'', ''WPM 0'']" "file_type kY = ''3mf''"
    "render kY = [''keycap'', ''stem'']"
    using y by (auto simp: sample_defs)
  have fs: "name kS = ''l_space''" "legends kS = ['''']" "file_type kS = ''3mf''"
    "render kS = [''keycap'', ''stem'']"
    using s by (auto simp: sample_defs)
  show ?thesis using that [OF c] fq fy fs by simp
qed

lemma sample_world_fields:
  "KEYCAPS sample_world = sample_catalog" "COMMANDS sample_world = []"
  "stdout sample_world = []" "SEM sample_world = None"
  "files sample_world = {''out'', ''out/l_Q.3mf'', ''out/r_Y_legends.stl''}"
  by (simp_all add: sample_world_def module_loaded_def)

lemma sample_args_fields:
  "args_out sample_args = ''out''" "args_jobs sample_args = 8" "\<not> args_force sample_args"
  "\<not> args_skip_colorscad sample_args" "\<not> args_transparent sample_args"
  "\<not> args_legends sample_args" "\<not> args_keycaps sample_args" "args_names sample_args = []"
  by (simp_all add: sample_args_def default_args_def)

lemma ascii_lower_samples:
  "ascii_lower ''foo'' = ''foo''" "ascii_lower ''bar'' = ''bar''"
  "ascii_lower ''L_SPACE'' = ''l_space''" "ascii_lower ''r_y'' = ''r_y''"
  "ascii_lower ''l_Q'' = ''l_q''" "ascii_lower ''r_Y'' = ''r_y''"
  "ascii_lower ''l_space'' = ''l_space''"
  by (simp_all add: ascii_lower_def lower_char_def)

lemma sample_generate:
  assumes "0 \<le> args_jobs a" "\<not> args_keycaps a" "args_out a = ''out''"
  shows "generate lower str help mkdir (p # x # xs) a sample_world =
           (generate_commands lower str a (sample_world\<lparr>SEM := Some (nat (args_jobs a))\<rparr>), Proceed)"
  using assms by (intro generate_plain) (simp_all add: sample_world_fields)

lemma sample_run_fields:
  "generate ascii_lower sample_str ''usage: ...'' sample_mkdir
     [''scripts/ft-ergodox.py'', ''-o'', ''out''] sample_args sample_world = (sample_run, Proceed)"
  "SEM sample_run = Some 8"
  "files sample_run = {''out'', ''out/l_Q.3mf'', ''out/r_Y_legends.stl''}"
  "COMMANDS sample_run =
     [''openscad -o out/r_Y.3mf RENDER=keycap,stem'',
      ''openscad -o out/l_space.3mf RENDER=keycap,stem'']"
  "stdout sample_run =
     [BRIGHT @ ''Outputting to: out'' @ RESET_ALL,
      BRIGHT @ ''out/l_Q.3mf exists; skipping...'' @ RESET_ALL,
      BRIGHT @ ''Rendering out/r_Y.3mf...'' @ RESET_ALL,
      ''openscad -o out/r_Y.3mf RENDER=keycap,stem'',
      BRIGHT @ ''Rendering out/l_space.3mf...'' @ RESET_ALL,
      ''openscad -o out/l_space.3mf RENDER=keycap,stem'']"
proof -
  let ?w = "print (BRIGHT @ ''Outputting to: out'' @ RESET_ALL) (sample_world\<lparr>SEM := Some 8\<rparr>)"
  have g: "generate ascii_lower sample_str ''usage: ...'' sample_mkdir
     [''scripts/ft-ergodox.py'', ''-o'', ''out''] sample_args sample_world =
       (full_batch sample_str sample_args ?w, Proceed)"
    using sample_generate [of sample_args ascii_lower sample_str "''usage: ...''" sample_mkdir]
    by (simp add: sample_args_fields generate_commands_def)
  then show 1: "generate ascii_lower sample_str ''usage: ...'' sample_mkdir
     [''scripts/ft-ergodox.py'', ''-o'', ''out''] sample_args sample_world = (sample_run, Proceed)"
    by (simp add: sample_run_def)
  have r: "sample_run = full_batch sample_str sample_args ?w"
    using g by (simp add: sample_run_def)
  obtain kQ kY kS where c: "sample_catalog = [kQ, kY, kS]"
    and f: "name kQ = ''l_Q''" "name kY = ''r_Y''" "name kS = ''l_space''"
      "file_type kQ = ''3mf''" "file_type kY = ''3mf''" "file_type kS = ''3mf''"
      "render kQ = [''keycap'', ''stem'']" "render kY = [''keycap'', ''stem'']"
      "render kS = [''keycap'', ''stem'']"
    by (rule sample_catalog_entries)
  note e = full_batch_exact [of sample_str sample_args ?w]
  show "SEM sample_run = Some 8" "files sample_run = {''out'', ''out/l_Q.3mf'', ''out/r_Y_legends.stl''}"
    unfolding r using e by (simp_all add: sample_world_fields)
  show "COMMANDS sample_run =
     [''openscad -o out/r_Y.3mf RENDER=keycap,stem'',
      ''openscad -o out/l_space.3mf RENDER=keycap,stem'']"
    unfolding r using e
    by (simp add: sample_world_fields sample_args_fields c f sample_str_def rendered_def)
  show "stdout sample_run =
     [BRIGHT @ ''Outputting to: out'' @ RESET_ALL,
      BRIGHT @ ''out/l_Q.3mf exists; skipping...'' @ RESET_ALL,
      BRIGHT @ ''Rendering out/r_Y.3mf...'' @ RESET_ALL,
      ''openscad -o out/r_Y.3mf RENDER=keycap,stem'',
      BRIGHT @ ''Rendering out/l_space.3mf...'' @ RESET_ALL,
      ''openscad -o out/l_space.3mf RENDER=keycap,stem'']"
    unfolding r using e
    by (simp add: sample_world_fields sample_args_fields c f sample_str_def rendered_def
        keycap_lines_def)
qed

subsection \<open>Skipping files that exist\<close>

text \<open>
  Claim C4. When the script goes on to generate commands in the full batch, the
  commands appended are exactly those of the keycaps of \<^verbatim>\<open>KEYCAPS\<close> whose output
  file \<^verbatim>\<open>{out}/{name}.{file_type}\<close> does not exist or that \<^verbatim>\<open>--force\<close> forces, in
  the order of the catalog, followed under \<^verbatim>\<open>--legends\<close> by the legend commands
  under the same rule; a keycap that is skipped gets the line
  \<^verbatim>\<open>... exists; skipping...\<close>. In the named branch (without \<^verbatim>\<open>--legends\<close>, or with
  one requested name) the command of a keycap whose name matches follows the same rule,
  but the second command of lines 691-706 does not: it is appended exactly when the file
  \<^verbatim>\<open>{out}/{name}_legends.stl\<close> does not exist, whether \<^verbatim>\<open>--force\<close> is given or
  not.
\<close>

theorem skip_unless_forced:
  assumes "generate lower str help mkdir argv a w = (w', Proceed)"
  shows "(args_names a = [] \<longrightarrow>
            COMMANDS w' =
              COMMANDS w @
              map (\<lambda>k. str (rendered a k))
                (filter (\<lambda>k. args_force a \<or>
                             args_out a @ ''/'' @ name k @ ''.'' @ file_type k \<notin> files w')
                   (KEYCAPS w)) @
              (if args_legends a
               then map (\<lambda>k. str (legend_mesh a k))
                      (filter (\<lambda>k. legends k \<noteq> [''''] \<and>
                                   (args_force a \<or>
                                    args_out a @ ''/'' @ name k @ ''_legends.stl'' \<notin> files w'))
                         (KEYCAPS w))
               else []) \<and>
            stdout w' =
              stdout w @
              (if args_out a \<in> files w then []
               else [BRIGHT @ ''Output path, '' @ [CHR 0x27] @ args_out a @ [CHR 0x27] @
                       '' does not exist; making it...'' @ RESET_ALL]) @
              [BRIGHT @ ''Outputting to: '' @ args_out a @ RESET_ALL] @
              concat (map (keycap_lines str a (files w')) (KEYCAPS w)) @
              (if args_legends a then concat (map (legend_lines str a (files w')) (KEYCAPS w))
               else [])) \<and>
         (args_names a \<noteq> [] \<and> (\<not> args_legends a \<or> length (args_names a) = 1) \<longrightarrow>
            COMMANDS w' =
              COMMANDS w @
              concat (map (\<lambda>nm. concat (map (named_commands str a (files w'))
                        (filter (\<lambda>k. lower (name k) = lower nm) (KEYCAPS w)))) (args_names a)) \<and>
            stdout w' =
              stdout w @
              (if args_out a \<in> files w then []
               else [BRIGHT @ ''Output path, '' @ [CHR 0x27] @ args_out a @ [CHR 0x27] @
                       '' does not exist; making it...'' @ RESET_ALL]) @
              [BRIGHT @ ''Outputting to: '' @ args_out a @ RESET_ALL] @
              concat (map (\<lambda>nm. concat (map (named_lines str a (files w'))
                        (filter (\<lambda>k. lower (name k) = lower nm) (KEYCAPS w)))) (args_names a)) @
              (if \<exists>n \<in> set (args_names a). \<exists>k \<in> set (KEYCAPS w). lower (name k) = lower n
               then [] else [''Cound not find a keycap named '' @ last (args_names a)]))"
proof -
  from assms obtain w1 where w': "w' = generate_commands lower str a w1"
    and k: "KEYCAPS w1 = KEYCAPS w" and c: "COMMANDS w1 = COMMANDS w"
    and o: "stdout w1 = stdout w @
           (if args_out a \<in> files w then []
            else [BRIGHT @ ''Output path, '' @ [CHR 0x27] @ args_out a @ [CHR 0x27] @
                    '' does not exist; making it...'' @ RESET_ALL])"
    by (rule generate_Proceed)
  let ?w2 = "print (BRIGHT @ ''Outputting to: '' @ args_out a @ RESET_ALL) w1"
  have f: "files w' = files ?w2" using generate_commands_world(1) [of lower str a w1] w' by simp
  have 1: ?thesis if "args_names a = []"
    using full_batch_exact [of str a ?w2] k c o that unfolding f
    by (simp add: w' generate_commands_def Let_def)
  have 2: ?thesis if n: "args_names a \<noteq> []"
  proof (cases "\<not> args_legends a \<or> length (args_names a) = 1")
    case False
    then show ?thesis using n by simp
  next
    case True
    have m: "snd (names_loop lower str a (args_names a) (?w2, False)) =
       (\<exists>n \<in> set (args_names a). \<exists>k \<in> set (KEYCAPS w). lower (name k) = lower n)"
      using names_loop_matched [of lower str a "args_names a" ?w2 False] k by simp
    show ?thesis
      using names_loop_out [OF True, of lower str ?w2 False] n k c o m unfolding f
      by (simp add: w' generate_commands_def Let_def named_batch_fields not_found_msg_def)
  qed
  show ?thesis using 1 2 by blast
qed

text \<open>
  The run \<^verbatim>\<open>--force --legends -o out r_y\<close> with \<^verbatim>\<open>out/r_Y_legends.stl\<close> present:
  the only command is that of the keycap, and the legend mesh is skipped with a message
  in spite of \<^verbatim>\<open>--force\<close>. The full batch under the same flags appends the legend
  command of \<^verbatim>\<open>r_Y\<close>.
\<close>

theorem skip_unless_forced_witness:
  "args_force (sample_args\<lparr>args_force := True, args_legends := True, args_names := [''r_y'']\<rparr>) \<and>
   ''out/r_Y_legends.stl'' \<in> files sample_world \<and>
   COMMANDS (fst (generate ascii_lower sample_str ''usage: ...'' sample_mkdir
       [''scripts/ft-ergodox.py'', ''-f'', ''-l'', ''-o'', ''out'', ''r_y'']
       (sample_args\<lparr>args_force := True, args_legends := True, args_names := [''r_y'']\<rparr>)
       sample_world)) =
     [''openscad -o out/r_Y.3mf RENDER=keycap,stem''] \<and>
   stdout (fst (generate ascii_lower sample_str ''usage: ...'' sample_mkdir
       [''scripts/ft-ergodox.py'', ''-f'', ''-l'', ''-o'', ''out'', ''r_y'']
       (sample_args\<lparr>args_force := True, args_legends := True, args_names := [''r_y'']\<rparr>)
       sample_world)) =
     [BRIGHT @ ''Outputting to: out'' @ RESET_ALL,
      BRIGHT @ ''Rendering out/r_Y.3mf...'' @ RESET_ALL,
      ''openscad -o out/r_Y.3mf RENDER=keycap,stem'',
      BRIGHT @ ''out/r_Y_legends.stl exists; skipping...'' @ RESET_ALL] \<and>
   COMMANDS (fst (generate ascii_lower sample_str ''usage: ...'' sample_mkdir
       [''scripts/ft-ergodox.py'', ''-f'', ''-l'', ''-o'', ''out'']
       (sample_args\<lparr>args_force := True, args_legends := True\<rparr>) sample_world)) =
     [''openscad -o out/l_Q.3mf RENDER=keycap,stem'',
      ''openscad -o out/r_Y.3mf RENDER=keycap,stem'',
      ''openscad -o out/l_space.3mf RENDER=keycap,stem'',
      ''openscad -o out/l_Q_legends.stl RENDER=legends'',
      ''openscad -o out/r_Y_legends.stl RENDER=legends'']"
proof -
  obtain kQ kY kS where c: "sample_catalog = [kQ, kY, kS]"
    and f: "name kQ = ''l_Q''" "name kY = ''r_Y''" "name kS = ''l_space''"
      "legends kQ = [''Q'', ''F6'']" "legends kY = [''Y'', ''WPM 0'']" "legends kS = ['''']"
      "file_type kQ = ''3mf''" "file_type kY = ''3mf''" "file_type kS = ''3mf''"
      "render kQ = [''keycap'', ''stem'']" "render kY = [''keycap'', ''stem'']"
      "render kS = [''keycap'', ''stem'']"
    by (rule sample_catalog_entries)
  let ?a = "sample_args\<lparr>args_force := True, args_legends := True, args_names := [''r_y'']\<rparr>"
  let ?b = "sample_args\<lparr>args_force := True, args_legends := True\<rparr>"
  let ?A = "generate ascii_lower sample_str ''usage: ...'' sample_mkdir
       [''scripts/ft-ergodox.py'', ''-f'', ''-l'', ''-o'', ''out'', ''r_y''] ?a sample_world"
  let ?B = "generate ascii_lower sample_str ''usage: ...'' sample_mkdir
       [''scripts/ft-ergodox.py'', ''-f'', ''-l'', ''-o'', ''out''] ?b sample_world"
  have g: "?A = (fst ?A, Proceed)"
    using sample_generate [of ?a ascii_lower sample_str "''usage: ...''" sample_mkdir]
    by (simp add: sample_args_fields)
  have h: "?B = (fst ?B, Proceed)"
    using sample_generate [of ?b ascii_lower sample_str "''usage: ...''" sample_mkdir]
    by (simp add: sample_args_fields)
  have fa: "files (fst ?A) = files sample_world"
    using sample_generate [of ?a ascii_lower sample_str "''usage: ...''" sample_mkdir]
    by (simp add: sample_args_fields generate_commands_world)
  have fb: "files (fst ?B) = files sample_world"
    using sample_generate [of ?b ascii_lower sample_str "''usage: ...''" sample_mkdir]
    by (simp add: sample_args_fields generate_commands_world)
  have A: "COMMANDS (fst ?A) = [''openscad -o out/r_Y.3mf RENDER=keycap,stem''] \<and>
     stdout (fst ?A) =
     [BRIGHT @ ''Outputting to: out'' @ RESET_ALL,
      BRIGHT @ ''Rendering out/r_Y.3mf...'' @ RESET_ALL,
      ''openscad -o out/r_Y.3mf RENDER=keycap,stem'',
      BRIGHT @ ''out/r_Y_legends.stl exists; skipping...'' @ RESET_ALL]"
    using skip_unless_forced [OF g] unfolding fa
    by (simp add: sample_world_fields sample_args_fields c f ascii_lower_samples
        named_commands_def named_lines_def sample_str_def rendered_def)
  have B: "COMMANDS (fst ?B) =
     [''openscad -o out/l_Q.3mf RENDER=keycap,stem'',
      ''openscad -o out/r_Y.3mf RENDER=keycap,stem'',
      ''openscad -o out/l_space.3mf RENDER=keycap,stem'',
      ''openscad -o out/l_Q_legends.stl RENDER=legends'',
      ''openscad -o out/r_Y_legends.stl RENDER=legends'']"
    using skip_unless_forced [OF h] unfolding fb
    by (simp add: sample_world_fields sample_args_fields c f sample_str_def rendered_def
        legend_mesh_def)
  show ?thesis using A B by (simp add: sample_world_fields sample_args_fields)
qed

subsection \<open>What generation does to the catalog\<close>




subsection \<open>Legend meshes\<close>

text \<open>
  Claim C6, as amended. With \<^verbatim>\<open>--legends\<close> the full batch appends, after the commands
  of the first loop, one legend command for every keycap of \<^verbatim>\<open>KEYCAPS\<close> whose legends
  are not \<^verbatim>\<open>[""]\<close> and whose legend file \<^verbatim>\<open>{out}/{name}_legends.stl\<close> does not exist
  or is forced by \<^verbatim>\<open>--force\<close>; the command is that of the keycap renamed with the
  suffix \<^verbatim>\<open>_legends\<close>, with render list \<^verbatim>\<open>["legends"]\<close> and file type \<^verbatim>\<open>stl\<close>.
  A keycap whose legends are \<^verbatim>\<open>[""]\<close> gets no legend command and no line of output; a
  keycap whose legend file exists when \<^verbatim>\<open>--force\<close> is not given gets no legend command
  and the line \<^verbatim>\<open>... exists; skipping...\<close>.
\<close>

theorem legend_commands:
  assumes "generate lower str help mkdir argv a w = (w', Proceed)"
    and "args_names a = []" and "args_legends a"
  shows "COMMANDS w' =
           COMMANDS w @
           map (\<lambda>k. str (rendered a k))
             (filter (\<lambda>k. args_force a \<or>
                          args_out a @ ''/'' @ name k @ ''.'' @ file_type k \<notin> files w')
                (KEYCAPS w)) @
           map (\<lambda>k. str (legend_mesh a k))
             (filter (\<lambda>k. legends k \<noteq> [''''] \<and>
                          (args_force a \<or> args_out a @ ''/'' @ name k @ ''_legends.stl'' \<notin> files w'))
                (KEYCAPS w)) \<and>
         stdout w' =
           stdout w @
           (if args_out a \<in> files w then []
            else [BRIGHT @ ''Output path, '' @ [CHR 0x27] @ args_out a @ [CHR 0x27] @
                    '' does not exist; making it...'' @ RESET_ALL]) @
           [BRIGHT @ ''Outputting to: '' @ args_out a @ RESET_ALL] @
           concat (map (keycap_lines str a (files w')) (KEYCAPS w)) @
           concat (map (legend_lines str a (files w')) (KEYCAPS w))"
proof -
  from assms(1) obtain w1 where w': "w' = generate_commands lower str a w1"
    and k: "KEYCAPS w1 = KEYCAPS w" and c: "COMMANDS w1 = COMMANDS w"
    and o: "stdout w1 = stdout w @
           (if args_out a \<in> files w then []
            else [BRIGHT @ ''Output path, '' @ [CHR 0x27] @ args_out a @ [CHR 0x27] @
                    '' does not exist; making it...'' @ RESET_ALL])"
    by (rule generate_Proceed)
  let ?w2 = "print (BRIGHT @ ''Outputting to: '' @ args_out a @ RESET_ALL) w1"
  have f: "files w' = files ?w2" using generate_commands_world(1) [of lower str a w1] w' by simp
  show ?thesis
    using full_batch_exact [of str a ?w2] k c o assms(2,3) unfolding f
    by (simp add: w' generate_commands_def Let_def)
qed

theorem legend_commands_witness:
  "COMMANDS (fst (generate ascii_lower sample_str ''usage: ...'' sample_mkdir
       [''scripts/ft-ergodox.py'', ''-f'', ''-l'', ''-o'', ''out'']
       (sample_args\<lparr>args_legends := True, args_force := True\<rparr>) sample_world)) =
     [''openscad -o out/l_Q.3mf RENDER=keycap,stem'',
      ''openscad -o out/r_Y.3mf RENDER=keycap,stem'',
      ''openscad -o out/l_space.3mf RENDER=keycap,stem'',
      ''openscad -o out/l_Q_legends.stl RENDER=legends'',
      ''openscad -o out/r_Y_legends.stl RENDER=legends'']"
proof -
  obtain kQ kY kS where c: "sample_catalog = [kQ, kY, kS]"
    and f: "name kQ = ''l_Q''" "name kY = ''r_Y''" "name kS = ''l_space''"
      "legends kQ = [''Q'', ''F6'']" "legends kY = [''Y'', ''WPM 0'']" "legends kS = ['''']"
      "file_type kQ = ''3mf''" "file_type kY = ''3mf''" "file_type kS = ''3mf''"
      "render kQ = [''keycap'', ''stem'']" "render kY = [''keycap'', ''stem'']"
      "render kS = [''keycap'', ''stem'']"
    by (rule sample_catalog_entries)
  let ?a = "sample_args\<lparr>args_legends := True, args_force := True\<rparr>"
  have g: "generate ascii_lower sample_str ''usage: ...'' sample_mkdir
       [''scripts/ft-ergodox.py'', ''-f'', ''-l'', ''-o'', ''out''] ?a sample_world =
       (fst (generate ascii_lower sample_str ''usage: ...'' sample_mkdir
       [''scripts/ft-ergodox.py'', ''-f'', ''-l'', ''-o'', ''out''] ?a sample_world), Proceed)"
    using sample_generate [of ?a ascii_lower sample_str "''usage: ...''" sample_mkdir]
    by (simp add: sample_args_fields)
  have 1: "args_names ?a = []" "args_legends ?a" by (simp_all add: sample_args_fields)
  show ?thesis
    using legend_commands [OF g 1]
    by (simp add: sample_world_fields sample_args_fields c f sample_str_def rendered_def
        legend_mesh_def)
qed

text \<open>
  The claim C6 as stated fails: \<^verbatim>\<open>r_Y\<close> has legends, \<^verbatim>\<open>--legends\<close> is given, and
  no legend command is generated for it, because \<^verbatim>\<open>out/r_Y_legends.stl\<close> exists and
  \<^verbatim>\<open>--force\<close> is not given. Only \<^verbatim>\<open>l_Q\<close> gets one.
\<close>

theorem legend_skipped_counterexample:
  "legends (sample_catalog ! 1) = [''Y'', ''WPM 0''] \<and>
   COMMANDS (fst (generate ascii_lower sample_str ''usage: ...'' sample_mkdir
       [''scripts/ft-ergodox.py'', ''-l'', ''-o'', ''out'']
       (sample_args\<lparr>args_legends := True\<rparr>) sample_world)) =
     [''openscad -o out/r_Y.3mf RENDER=keycap,stem'',
      ''openscad -o out/l_space.3mf RENDER=keycap,stem'',
      ''openscad -o out/l_Q_legends.stl RENDER=legends'']"
proof -
  obtain kQ kY kS where c: "sample_catalog = [kQ, kY, kS]"
    and f: "name kQ = ''l_Q''" "name kY = ''r_Y''" "name kS = ''l_space''"
      "legends kQ = [''Q'', ''F6'']" "legends kY = [''Y'', ''WPM 0'']" "legends kS = ['''']"
      "file_type kQ = ''3mf''" "file_type kY = ''3mf''" "file_type kS = ''3mf''"
      "render kQ = [''keycap'', ''stem'']" "render kY = [''keycap'', ''stem'']"
      "render kS = [''keycap'', ''stem'']"
    by (rule sample_catalog_entries)
  let ?a = "sample_args\<lparr>args_legends := True\<rparr>"
  let ?w = "print (BRIGHT @ ''Outputting to: out'' @ RESET_ALL) (sample_world\<lparr>SEM := Some 8\<rparr>)"
  have g: "fst (generate ascii_lower sample_str ''usage: ...'' sample_mkdir
       [''scripts/ft-ergodox.py'', ''-l'', ''-o'', ''out''] ?a sample_world) =
       full_batch sample_str ?a ?w"
    using sample_generate [of ?a ascii_lower sample_str "''usage: ...''" sample_mkdir]
    by (simp add: sample_args_fields generate_commands_def)
  show ?thesis
    unfolding g using full_batch_exact [of sample_str ?a ?w]
    by (simp add: sample_world_fields sample_args_fields c f sample_str_def rendered_def
        legend_mesh_def)
qed

subsection \<open>Names that match no keycap\<close>

text \<open>
  Claim C9. In the named branch a requested name matches a keycap when the two are equal
  after \<^verbatim>\<open>lower()\<close>; the flag \<^verbatim>\<open>matched\<close> is one flag for all the requested
  names, and it ends true exactly when some requested name matches some keycap of
  \<^verbatim>\<open>KEYCAPS\<close>. The line \<^verbatim>\<open>Cound not find a keycap named ...\<close> is printed exactly
  when no requested name matches, and it names the last requested name; in that case the
  branch appends no command and leaves the catalog as it was.
\<close>

theorem not_found_message:
  "stdout (named_batch lower str a w) =
     stdout (fst (names_loop lower str a (args_names a) (w, False))) @
     (if \<exists>n \<in> set (args_names a). \<exists>k \<in> set (KEYCAPS w). lower (name k) = lower n
      then [] else [not_found_msg (last (args_names a))]) \<and>
   snd (names_loop lower str a (args_names a) (w, False)) =
     (\<exists>n \<in> set (args_names a). \<exists>k \<in> set (KEYCAPS w). lower (name k) = lower n) \<and>
   ((\<forall>n \<in> set (args_names a). \<forall>k \<in> set (KEYCAPS w). lower (name k) \<noteq> lower n) \<longrightarrow>
      named_batch lower str a w =
        print (''Cound not find a keycap named '' @ last (args_names a)) w) \<and>
   (generate lower str help mkdir argv a w = (w', Proceed) \<and> args_names a \<noteq> [] \<and>
    (\<forall>n \<in> set (args_names a). \<forall>k \<in> set (KEYCAPS w). lower (name k) \<noteq> lower n) \<longrightarrow>
      COMMANDS w' = COMMANDS w \<and> KEYCAPS w' = KEYCAPS w \<and>
      stdout w' =
        stdout w @
        (if args_out a \<in> files w then []
         else [BRIGHT @ ''Output path, '' @ [CHR 0x27] @ args_out a @ [CHR 0x27] @
                 '' does not exist; making it...'' @ RESET_ALL]) @
        [BRIGHT @ ''Outputting to: '' @ args_out a @ RESET_ALL,
         ''Cound not find a keycap named '' @ last (args_names a)])"
proof -
  have m: "snd (names_loop lower str a (args_names a) (w, False)) =
     (\<exists>n \<in> set (args_names a). \<exists>k \<in> set (KEYCAPS w). lower (name k) = lower n)"
    using names_loop_matched [of lower str a "args_names a" w False] by simp
  have n: "named_batch lower str a w1 =
             print (''Cound not find a keycap named '' @ last (args_names a)) w1"
    if "\<forall>n \<in> set (args_names a). \<forall>k \<in> set (KEYCAPS w1). lower (name k) \<noteq> lower n" for w1
    using names_loop_no_match [of "args_names a" w1 lower str a False] that
    by (simp add: named_batch_def not_found_msg_def)
  have g: "COMMANDS w' = COMMANDS w \<and> KEYCAPS w' = KEYCAPS w \<and>
      stdout w' =
        stdout w @
        (if args_out a \<in> files w then []
         else [BRIGHT @ ''Output path, '' @ [CHR 0x27] @ args_out a @ [CHR 0x27] @
                 '' does not exist; making it...'' @ RESET_ALL]) @
        [BRIGHT @ ''Outputting to: '' @ args_out a @ RESET_ALL,
         ''Cound not find a keycap named '' @ last (args_names a)]"
    if p: "generate lower str help mkdir argv a w = (w', Proceed)" and ne: "args_names a \<noteq> []"
      and no: "\<forall>n \<in> set (args_names a). \<forall>k \<in> set (KEYCAPS w). lower (name k) \<noteq> lower n"
  proof -
    from p obtain w1 where w': "w' = generate_commands lower str a w1"
      and k: "KEYCAPS w1 = KEYCAPS w" and c: "COMMANDS w1 = COMMANDS w"
      and o: "stdout w1 = stdout w @
           (if args_out a \<in> files w then []
            else [BRIGHT @ ''Output path, '' @ [CHR 0x27] @ args_out a @ [CHR 0x27] @
                    '' does not exist; making it...'' @ RESET_ALL])"
      by (rule generate_Proceed)
    let ?w2 = "print (BRIGHT @ ''Outputting to: '' @ args_out a @ RESET_ALL) w1"
    have "\<forall>n \<in> set (args_names a). \<forall>k \<in> set (KEYCAPS ?w2). lower (name k) \<noteq> lower n"
      using no k by simp
    from n [OF this] show ?thesis using ne k c o by (simp add: w' generate_commands_def Let_def)
  qed
  show ?thesis using m n [of w] g named_batch_fields(5) [of lower str a w] by simp
qed

theorem not_found_message_witness:
  "stdout (named_batch ascii_lower sample_str (sample_args\<lparr>args_names := [''foo'', ''bar'']\<rparr>)
            sample_world) =
     [''Cound not find a keycap named bar''] \<and>
   snd (names_loop ascii_lower sample_str (sample_args\<lparr>args_names := [''foo'', ''L_SPACE'', ''bar'']\<rparr>)
          [''foo'', ''L_SPACE'', ''bar''] (sample_world, False))"
proof -
  obtain kQ kY kS where c: "sample_catalog = [kQ, kY, kS]"
    and f: "name kQ = ''l_Q''" "name kY = ''r_Y''" "name kS = ''l_space''"
    by (rule sample_catalog_entries)
  show ?thesis
    using not_found_message [of ascii_lower sample_str "sample_args\<lparr>args_names := [''foo'', ''bar'']\<rparr>"
        sample_world "''usage: ...''" sample_mkdir "[]" sample_world]
      not_found_message [of ascii_lower sample_str
        "sample_args\<lparr>args_names := [''foo'', ''L_SPACE'', ''bar'']\<rparr>"
        sample_world "''usage: ...''" sample_mkdir "[]" sample_world]
    by (simp add: sample_world_fields c f ascii_lower_samples)
qed

subsection \<open>Exits before the generation\<close>

text \<open>
  Claim C10, as amended. With no command-line argument the script prints the usage help,
  an empty line, the heading and the keycap names, and exits with status 1; with
  \<^verbatim>\<open>--keycaps\<close> and a \<^verbatim>\<open>--jobs\<close> value that is not negative it prints the heading
  and the names and exits with status 1. In both cases no command is appended and no
  directory is made. With a negative \<^verbatim>\<open>--jobs\<close> value line 651 raises
  \<^verbatim>\<open>ValueError\<close> before anything is printed.
\<close>

theorem usage_and_keycap_names:
  "(length argv = 1 \<longrightarrow>
      generate lower str help mkdir argv default_args w =
        (w\<lparr>SEM := Some 8,
           stdout := stdout w @
             [help, [], BRIGHT @ ''Here's all the keycaps we can render:'' @ [CHR 0x0A] @ RESET_ALL,
              join '', '' (map name (KEYCAPS w))]\<rparr>, Exit 1)) \<and>
   (args_keycaps a \<and> 0 \<le> args_jobs a \<longrightarrow>
      generate lower str help mkdir argv a w =
        (w\<lparr>SEM := Some (nat (args_jobs a)),
           stdout := stdout w @ (if length argv = 1 then [help, []] else []) @
             [BRIGHT @ ''Here's all the keycaps we can render:'' @ [CHR 0x0A] @ RESET_ALL,
              join '', '' (map name (KEYCAPS w))]\<rparr>, Exit 1)) \<and>
   (args_jobs a < 0 \<longrightarrow>
      generate lower str help mkdir argv a w =
        (w, Raised (ValueError ''Semaphore initial value must be >= 0'')))"
  by (simp add: generate_def default_args_def print_keycaps_def print_def Let_def)

theorem usage_and_keycap_names_witness:
  "generate ascii_lower sample_str ''usage: ...'' sample_mkdir [''scripts/ft-ergodox.py'']
       default_args sample_world =
     (sample_world\<lparr>SEM := Some 8, stdout :=
        [''usage: ...'', [], BRIGHT @ ''Here's all the keycaps we can render:'' @ [CHR 0x0A] @ RESET_ALL,
         ''l_Q, r_Y, l_space'']\<rparr>, Exit 1) \<and>
   snd (generate ascii_lower sample_str ''usage: ...'' sample_mkdir [''scripts/ft-ergodox.py'', ''-k'']
          (default_args\<lparr>args_keycaps := True\<rparr>) sample_world) = Exit 1"
  using usage_and_keycap_names [of "[''scripts/ft-ergodox.py'']" ascii_lower sample_str
      "''usage: ...''" sample_mkdir sample_world "default_args\<lparr>args_keycaps := True\<rparr>"]
    usage_and_keycap_names [of "[''scripts/ft-ergodox.py'', ''-k'']" ascii_lower sample_str
      "''usage: ...''" sample_mkdir sample_world "default_args\<lparr>args_keycaps := True\<rparr>"]
  by (simp add: sample_world_fields sample_catalog_fields default_args_def)

text \<open>
  The claim C10 as stated fails: with \<^verbatim>\<open>--keycaps --jobs -1\<close> the names are not
  printed and the script does not exit with status 1; it ends with the
  \<^verbatim>\<open>ValueError\<close> of line 651.
\<close>

theorem keycaps_flag_negative_jobs_counterexample:
  "args_keycaps (default_args\<lparr>args_keycaps := True, args_jobs := - 1\<rparr>) \<and>
   generate ascii_lower sample_str ''usage: ...'' sample_mkdir
       [''scripts/ft-ergodox.py'', ''-k'', ''-j'', ''-1'']
       (default_args\<lparr>args_keycaps := True, args_jobs := - 1\<rparr>) sample_world =
     (sample_world, Raised (ValueError ''Semaphore initial value must be >= 0'')) \<and>
   stdout sample_world = []"
  by (simp add: generate_def default_args_def sample_world_fields)

section \<open>The runner\<close>

subsection \<open>Facts about the runner\<close>

lemma count_update:
  "i < length xs \<Longrightarrow>
   length (filter P (xs[i := y])) + (if P (xs ! i) then 1 else 0) =
   length (filter P xs) + (if P y then 1 else 0)"
proof (induction xs arbitrary: i)
  case Nil
  then show ?case by simp
next
  case (Cons x xs)
  show ?case
  proof (cases i)
    case 0
    then show ?thesis by simp
  next
    case (Suc j)
    then have "j < length xs" using Cons.prems by simp
    from Cons.IH [OF this] Suc show ?thesis by simp
  qed
qed



text \<open>The events that can happen, one rule for each branch of \<open>fire\<close>.\<close>

lemma fire_cases [consumes 1, case_names Acquire Unbound Complete Raise Wake Collect Reraise Process]:
  assumes "fire sh e s = Some s'"
  obtains
    (Acquire) i command n where "e = Acquire i" "i < length (futures s)" "raised s = None"
      "futures s ! i = (command, Waiting)" "permits s = Some (Suc n)"
      "s' = s\<lparr>permits := Some n, futures := (futures s)[i := (command, Running)]\<rparr>"
  | (Unbound) i command where "e = Acquire i" "i < length (futures s)" "raised s = None"
      "futures s ! i = (command, Waiting)" "permits s = None"
      "s' = s\<lparr>futures := (futures s)[i := (command, Failed (NameError ''SEM''))]\<rparr>"
  | (Complete) i command out where "e = Complete i" "i < length (futures s)" "raised s = None"
      "futures s ! i = (command, Running)" "run_command sh command = Inr out"
      "s' = s\<lparr>futures := (futures s)[i := (command, Sleeping out)],
               shell_log := shell_log s @ [command]\<rparr>"
  | (Raise) i command x where "e = Complete i" "i < length (futures s)" "raised s = None"
      "futures s ! i = (command, Running)" "run_command sh command = Inl x"
      "s' = s\<lparr>permits := map_option Suc (permits s),
               futures := (futures s)[i := (command, Failed x)],
               shell_log := shell_log s @ [command]\<rparr>"
  | (Wake) i command out where "e = Wake i" "i < length (futures s)" "raised s = None"
      "futures s ! i = (command, Sleeping out)"
      "s' = s\<lparr>permits := map_option Suc (permits s),
               futures := (futures s)[i := (command, Returned out)]\<rparr>"
  | (Collect) i command result where "e = Collect i" "i < length (futures s)" "raised s = None"
      "futures s ! i = (command, Returned result)"
      "s' = s\<lparr>futures := (futures s)[i := (command, Consumed)],
               scheduled := scheduled s @ [result]\<rparr>"
  | (Reraise) i command x where "e = Collect i" "i < length (futures s)" "raised s = None"
      "futures s ! i = (command, Failed x)" "s' = s\<lparr>raised := Some x\<rparr>"
  | (Process) result rest where "e = Process" "raised s = None" "scheduled s = result # rest"
      "s' = s\<lparr>scheduled := rest, printed := printed s @ [result]\<rparr>"
  using assms that
  by (cases e)
     (auto simp: fire_def
        split: if_splits prod.splits phase.splits option.splits nat.splits sum.splits list.splits)

lemma holding_update:
  assumes "i < length xs" "xs ! i = (c, p)"
  shows "length (filter (\<lambda>f. holds_permit (snd f)) (xs[i := (c, p')])) +
           (if holds_permit p then 1 else 0) =
         length (filter (\<lambda>f. holds_permit (snd f)) xs) + (if holds_permit p' then 1 else 0)"
  using count_update [OF assms(1), of "\<lambda>f. holds_permit (snd f)" "(c, p')"] assms(2)
  by simp

lemma executing_le_holding: "executing s \<le> holding s"
proof -
  have "length (filter (\<lambda>f. snd f = Running) xs) \<le> length (filter (\<lambda>f. holds_permit (snd f)) xs)"
    for xs :: "(string \<times> phase) list"
    by (induction xs) auto
  then show ?thesis by (simp add: executing_def holding_def)
qed

lemma permits_inv_fire:
  assumes "permits_inv n s" "fire sh e s = Some s'"
  shows "permits_inv n s'"
  using assms(2)
proof (cases rule: fire_cases)
  case (Acquire i command m)
  with assms(1) holding_update [OF Acquire(2) Acquire(4), of Running] show ?thesis
    by (simp add: permits_inv_def holding_def) arith
next
  case (Unbound i command)
  with assms(1) show ?thesis by (simp add: permits_inv_def holding_def)
next
  case (Complete i command out)
  with assms(1) holding_update [OF Complete(2) Complete(4), of "Sleeping out"] show ?thesis
    by (simp add: permits_inv_def holding_def)
next
  case (Raise i command x)
  with assms(1) holding_update [OF Raise(2) Raise(4), of "Failed x"] show ?thesis
    by (simp add: permits_inv_def holding_def) arith
next
  case (Wake i command out)
  with assms(1) holding_update [OF Wake(2) Wake(4), of "Returned out"] show ?thesis
    by (simp add: permits_inv_def holding_def) arith
next
  case (Collect i command result)
  with assms(1) holding_update [OF Collect(2) Collect(4), of Consumed] show ?thesis
    by (simp add: permits_inv_def holding_def)
next
  case (Reraise i command x)
  with assms(1) show ?thesis by (simp add: permits_inv_def holding_def)
next
  case (Process result rest)
  with assms(1) show ?thesis by (simp add: permits_inv_def holding_def)
qed

lemma permits_inv_run:
  "permits_inv n s \<Longrightarrow> run sh es s = Some s' \<Longrightarrow> permits_inv n s'"
proof (induction es arbitrary: s)
  case Nil
  then show ?case by simp
next
  case (Cons e es)
  then obtain s1 where f: "fire sh e s = Some s1" and r: "run sh es s1 = Some s'"
    by (auto split: option.splits)
  from Cons.IH [OF permits_inv_fire [OF Cons.prems(1) f] r] show ?case .
qed

lemma holding_start: "holding (run_all_commands w) = 0"
  by (simp add: holding_def run_all_commands_def filter_empty_conv)

lemma permits_inv_start: "SEM w = Some n \<Longrightarrow> permits_inv n (run_all_commands w)"
  by (simp add: permits_inv_def holding_start) (simp add: run_all_commands_def)


lemma list_all_update:
  "list_all P xs \<Longrightarrow> P y \<Longrightarrow> list_all P (xs[i := y])"
  by (induction xs arbitrary: i) (auto split: nat.splits)

lemma list_all_nth: "list_all P xs \<Longrightarrow> i < length xs \<Longrightarrow> P (xs ! i)"
  by (simp add: list_all_length)













text \<open>A runner that is started while \<^verbatim>\<open>SEM\<close> has no binding.\<close>

lemma unbound_fire:
  assumes p: "permits s = None"
    and a: "list_all (\<lambda>f. snd f = Waiting \<or> snd f = Failed (NameError ''SEM'')) (futures s)"
    and l: "shell_log s = []" and c: "scheduled s = []"
    and f: "fire sh e s = Some s'"
  shows "permits s' = None \<and>
         list_all (\<lambda>f. snd f = Waiting \<or> snd f = Failed (NameError ''SEM'')) (futures s') \<and>
         shell_log s' = [] \<and> scheduled s' = [] \<and> printed s' = printed s \<and>
         length (futures s') = length (futures s) \<and>
         (raised s' = None \<or> raised s' = Some (NameError ''SEM''))"
  using f
proof (cases rule: fire_cases)
  case (Acquire i command n)
  with p show ?thesis by simp
next
  case (Unbound i command)
  with p a l c show ?thesis by (simp add: list_all_update)
next
  case (Complete i command out)
  with list_all_nth [OF a Complete(2)] show ?thesis by simp
next
  case (Raise i command x)
  with list_all_nth [OF a Raise(2)] show ?thesis by simp
next
  case (Wake i command out)
  with list_all_nth [OF a Wake(2)] show ?thesis by simp
next
  case (Collect i command result)
  with list_all_nth [OF a Collect(2)] show ?thesis by simp
next
  case (Reraise i command x)
  with list_all_nth [OF a Reraise(2)] p a l c show ?thesis by simp
next
  case (Process result rest)
  with c show ?thesis by simp
qed

lemma unbound_run:
  assumes "permits s = None"
    and "list_all (\<lambda>f. snd f = Waiting \<or> snd f = Failed (NameError ''SEM'')) (futures s)"
    and "shell_log s = []" and "scheduled s = []" and "raised s = None"
    and "run sh es s = Some s'"
  shows "list_all (\<lambda>f. snd f = Waiting \<or> snd f = Failed (NameError ''SEM'')) (futures s') \<and>
         shell_log s' = [] \<and> printed s' = printed s \<and>
         length (futures s') = length (futures s) \<and>
         (raised s' = None \<or> raised s' = Some (NameError ''SEM''))"
  using assms
proof (induction es arbitrary: s)
  case Nil
  then show ?case by simp
next
  case (Cons e es)
  then obtain s1 where f: "fire sh e s = Some s1" and r: "run sh es s1 = Some s'"
    by (auto split: option.splits)
  note u = unbound_fire [OF Cons.prems(1-4) f]
  show ?case
  proof (cases "raised s1")
    case None
    with Cons.IH [of s1] u r show ?thesis by simp
  next
    case (Some x)
    then have "es = []" using r by (cases es) (simp_all add: fire_def)
    with r u show ?thesis by simp
  qed
qed

lemma unbound_start:
  assumes "SEM w = None" "run sh es (run_all_commands w) = Some s"
  shows "shell_log s = [] \<and> printed s = stdout w \<and>
         (raised s = None \<or> raised s = Some (NameError ''SEM'')) \<and>
         (COMMANDS w \<noteq> [] \<longrightarrow> \<not> finished s)"
proof -
  have 1: "list_all (\<lambda>f. snd f = Waiting \<or> snd f = Failed (NameError ''SEM''))
             (map (\<lambda>command. (command, Waiting)) cs)" for cs :: "string list"
    by (induction cs) auto
  have u: "list_all (\<lambda>f. snd f = Waiting \<or> snd f = Failed (NameError ''SEM'')) (futures s) \<and>
         shell_log s = [] \<and> printed s = printed (run_all_commands w) \<and>
         length (futures s) = length (futures (run_all_commands w)) \<and>
         (raised s = None \<or> raised s = Some (NameError ''SEM''))"
    using assms 1 by (intro unbound_run [of "run_all_commands w" sh es s])
      (simp_all add: run_all_commands_def)
  have "\<not> finished s" if "COMMANDS w \<noteq> []"
  proof -
    from that u have "futures s \<noteq> []" by (auto simp: run_all_commands_def)
    then obtain f fs where fs: "futures s = f # fs" by (cases "futures s") auto
    with u have "snd f = Waiting \<or> snd f = Failed (NameError ''SEM'')" by simp
    then show ?thesis using fs by (auto simp: finished_def)
  qed
  with u show ?thesis by (simp add: run_all_commands_def)
qed

lemma unbound_raises:
  assumes "SEM w = None" "i < length (COMMANDS w)"
  shows "map_option raised (run sh [Acquire i, Collect i] (run_all_commands w)) =
           Some (Some (NameError ''SEM''))"
  using assms by (simp add: run_all_commands_def fire_def)

text \<open>The worked run.\<close>

lemma sample_start:
  "run_all_commands sample_run =
     \<lparr>permits = Some 8,
      futures = [(''openscad -o out/r_Y.3mf RENDER=keycap,stem'', Waiting),
                 (''openscad -o out/l_space.3mf RENDER=keycap,stem'', Waiting)],
      scheduled = [], printed = stdout sample_run, shell_log = [], raised = None\<rparr>"
  by (simp add: run_all_commands_def sample_run_fields(2,4))

lemma sample_complete_run:
  "run sample_shell (one_by_one 2) (run_all_commands sample_run) =
     Some \<lparr>permits = Some 8,
      futures = [(''openscad -o out/r_Y.3mf RENDER=keycap,stem'', Consumed),
                 (''openscad -o out/l_space.3mf RENDER=keycap,stem'', Consumed)],
      scheduled = [],
      printed = stdout sample_run @
        [''ran openscad -o out/r_Y.3mf RENDER=keycap,stem'',
         ''ran openscad -o out/l_space.3mf RENDER=keycap,stem''],
      shell_log = [''openscad -o out/r_Y.3mf RENDER=keycap,stem'',
                   ''openscad -o out/l_space.3mf RENDER=keycap,stem''],
      raised = None\<rparr>"
  by (simp add: sample_start fire_def run_command_def sample_shell_def numeral_2_eq_2)

subsection \<open>The bound on the commands that run at the same time\<close>

text \<open>
  Claim C1. In every state that the runner can reach after the \<^verbatim>\<open>__main__\<close> block
  went on to line 754, the coroutines inside \<^verbatim>\<open>async with SEM\<close> and the permits left
  add up to \<^verbatim>\<open>args.jobs\<close>. A command runs in the shell only for a coroutine inside
  that block, which holds its permit from before the command starts until after the
  output is collected, so the commands that run at the same time are at most
  \<^verbatim>\<open>args.jobs\<close>; a coroutine enters the block only while fewer than \<^verbatim>\<open>args.jobs\<close>
  are inside.
\<close>

theorem running_commands_bounded_by_jobs:
  assumes "generate lower str help mkdir argv a w0 = (w, Proceed)"
    and "run sh es (run_all_commands w) = Some s"
  shows "int (executing s) \<le> args_jobs a \<and>
         executing s \<le> holding s \<and>
         holding s \<le> nat (args_jobs a) \<and>
         permits s = Some (nat (args_jobs a) - holding s) \<and>
         (\<forall>i s'. fire sh (Complete i) s = Some s' \<longrightarrow>
            i < length (futures s) \<and> snd (futures s ! i) = Running \<and> 0 < executing s \<and>
            holding s' \<le> holding s) \<and>
         (\<forall>i s'. fire sh (Acquire i) s = Some s' \<longrightarrow>
            holding s < nat (args_jobs a) \<and> holding s' = Suc (holding s))"
proof -
  from generate_SEM [OF assms(1)] have j: "0 \<le> args_jobs a" "SEM w = Some (nat (args_jobs a))"
    by simp_all
  from permits_inv_run [OF permits_inv_start [OF j(2)] assms(2)]
  have p: "permits_inv (nat (args_jobs a)) s" .
  then have h: "holding s \<le> nat (args_jobs a)" "permits s = Some (nat (args_jobs a) - holding s)"
    by (simp_all add: permits_inv_def)
  have c: "i < length (futures s) \<and> snd (futures s ! i) = Running \<and> 0 < executing s \<and>
           holding s' \<le> holding s"
    if f: "fire sh (Complete i) s = Some s'" for i s'
  proof -
    from f have r: "i < length (futures s) \<and> snd (futures s ! i) = Running"
      by (cases rule: fire_cases) simp_all
    then have "futures s ! i \<in> set (filter (\<lambda>f. snd f = Running) (futures s))" by simp
    then have "0 < executing s" unfolding executing_def by (metis length_pos_if_in_set)
    moreover from f have "holding s' \<le> holding s"
    proof (cases rule: fire_cases)
      case (Complete i command out)
      with holding_update [OF Complete(2) Complete(4), of "Sleeping out"] show ?thesis
        by (simp add: holding_def)
    next
      case (Raise i command x)
      with holding_update [OF Raise(2) Raise(4), of "Failed x"] show ?thesis
        by (simp add: holding_def)
    qed simp_all
    ultimately show ?thesis using r by simp
  qed
  have a: "holding s < nat (args_jobs a) \<and> holding s' = Suc (holding s)"
    if f: "fire sh (Acquire i) s = Some s'" for i s'
    using f permits_inv_fire [OF p f] h
    by (cases rule: fire_cases) (auto simp: permits_inv_def)
  from h executing_le_holding [of s] j(1) c a show ?thesis by simp
qed

theorem running_commands_bounded_by_jobs_witness:
  "map_option executing (run sample_shell [Acquire 0, Acquire 1, Complete 1]
      (run_all_commands sample_run)) = Some 1 \<and>
   map_option holding (run sample_shell [Acquire 0, Acquire 1, Complete 1]
      (run_all_commands sample_run)) = Some 2 \<and>
   map_option permits (run sample_shell [Acquire 0, Acquire 1, Complete 1]
      (run_all_commands sample_run)) = Some (Some 6) \<and>
   args_jobs sample_args = 8"
proof -
  obtain s where r: "run sample_shell [Acquire 0, Acquire 1, Complete 1]
      (run_all_commands sample_run) = Some s"
    by (simp add: sample_start fire_def run_command_def sample_shell_def)
  have e: "executing s = 1"
    using r by (auto simp: sample_start fire_def run_command_def sample_shell_def executing_def)
  have h: "holding s = 2"
    using r by (auto simp: sample_start fire_def run_command_def sample_shell_def holding_def)
  show ?thesis
    using running_commands_bounded_by_jobs [OF sample_run_fields(1) r] r e h
    by (simp add: sample_args_fields)
qed

subsection \<open>The binding of the semaphore\<close>

text \<open>
  Claim C2, as amended. After the module is loaded \<^verbatim>\<open>SEM\<close> has no binding. When the
  \<^verbatim>\<open>__main__\<close> block goes on to line 754, line 651 has bound \<^verbatim>\<open>SEM\<close> to a
  semaphore of \<^verbatim>\<open>args.jobs\<close> permits, and every coroutine that reaches
  \<^verbatim>\<open>async with SEM\<close> enters the block: no \<^verbatim>\<open>NameError\<close> is raised there. A runner
  that is started while \<^verbatim>\<open>SEM\<close> has no binding runs no command and prints nothing,
  each coroutine raises \<^verbatim>\<open>NameError\<close> at line 87, and the exception leaves
  \<^verbatim>\<open>run_all_commands\<close> when the result is taken.
\<close>

theorem SEM_is_bound_by_main:
  "SEM (module_loaded catalog fs) = None \<and>
   (generate lower str help mkdir argv a w0 = (w, Proceed) \<longrightarrow>
      SEM w = Some (nat (args_jobs a)) \<and>
      (\<forall>es s i s'. run sh es (run_all_commands w) = Some s \<and> fire sh (Acquire i) s = Some s' \<longrightarrow>
         i < length (futures s') \<and> snd (futures s' ! i) = Running)) \<and>
   (SEM w = None \<longrightarrow>
      (\<forall>i < length (COMMANDS w).
         map_option raised (run sh [Acquire i, Collect i] (run_all_commands w)) =
           Some (Some (NameError ''SEM''))) \<and>
      (\<forall>es s. run sh es (run_all_commands w) = Some s \<longrightarrow>
         shell_log s = [] \<and> printed s = stdout w \<and>
         (raised s = None \<or> raised s = Some (NameError ''SEM'')) \<and>
         (COMMANDS w \<noteq> [] \<longrightarrow> \<not> finished s)))"
proof -
  have 1: "SEM w = Some (nat (args_jobs a)) \<and>
      (\<forall>es s i s'. run sh es (run_all_commands w) = Some s \<and> fire sh (Acquire i) s = Some s' \<longrightarrow>
         i < length (futures s') \<and> snd (futures s' ! i) = Running)"
    if g: "generate lower str help mkdir argv a w0 = (w, Proceed)"
  proof -
    from generate_SEM [OF g] have j: "SEM w = Some (nat (args_jobs a))" by simp
    have "i < length (futures s') \<and> snd (futures s' ! i) = Running"
      if r: "run sh es (run_all_commands w) = Some s" and f: "fire sh (Acquire i) s = Some s'"
      for es s i s'
    proof -
      from permits_inv_run [OF permits_inv_start [OF j] r]
      have "permits s \<noteq> None" by (simp add: permits_inv_def)
      with f show ?thesis by (cases rule: fire_cases) simp_all
    qed
    with j show ?thesis by blast
  qed
  have 2: "(\<forall>i < length (COMMANDS w).
         map_option raised (run sh [Acquire i, Collect i] (run_all_commands w)) =
           Some (Some (NameError ''SEM''))) \<and>
      (\<forall>es s. run sh es (run_all_commands w) = Some s \<longrightarrow>
         shell_log s = [] \<and> printed s = stdout w \<and>
         (raised s = None \<or> raised s = Some (NameError ''SEM'')) \<and>
         (COMMANDS w \<noteq> [] \<longrightarrow> \<not> finished s))"
    if n: "SEM w = None"
    using unbound_raises [OF n, of _ sh] unbound_start [OF n, of sh] by blast
  show ?thesis using 1 2 by (simp add: module_loaded_def)
qed

theorem SEM_is_bound_by_main_witness:
  "SEM sample_world = None \<and> SEM sample_run = Some 8 \<and>
   map_option (\<lambda>s. snd (futures s ! 1)) (fire sample_shell (Acquire 1) (run_all_commands sample_run)) =
     Some Running \<and>
   map_option raised (run sample_shell [Acquire 0, Collect 0]
      (run_all_commands (sample_run\<lparr>SEM := None\<rparr>))) = Some (Some (NameError ''SEM''))"
proof -
  note A = SEM_is_bound_by_main [of sample_catalog
        "{''out'', ''out/l_Q.3mf'', ''out/r_Y_legends.stl''}" ascii_lower sample_str
        "''usage: ...''" sample_mkdir "[''scripts/ft-ergodox.py'', ''-o'', ''out'']" sample_args
        sample_world sample_run sample_shell]
  note B = SEM_is_bound_by_main [of sample_catalog
        "{''out'', ''out/l_Q.3mf'', ''out/r_Y_legends.stl''}" ascii_lower sample_str
        "''usage: ...''" sample_mkdir "[''scripts/ft-ergodox.py'', ''-o'', ''out'']" sample_args
        sample_world "sample_run\<lparr>SEM := None\<rparr>" sample_shell]
  have 1: "SEM sample_world = None" using A by (simp add: sample_world_def)
  have 2: "SEM sample_run = Some 8" using A sample_run_fields(1) by (simp add: sample_args_fields)
  obtain s' where f: "fire sample_shell (Acquire 1) (run_all_commands sample_run) = Some s'"
    by (simp add: sample_start fire_def)
  have r: "run sample_shell [] (run_all_commands sample_run) = Some (run_all_commands sample_run)"
    by simp
  from A sample_run_fields(1) have
    "\<forall>es s i s'. run sample_shell es (run_all_commands sample_run) = Some s \<and>
        fire sample_shell (Acquire i) s = Some s' \<longrightarrow>
        i < length (futures s') \<and> snd (futures s' ! i) = Running"
    by blast
  with r f have 3: "snd (futures s' ! 1) = Running" by blast
  have "0 < length (COMMANDS (sample_run\<lparr>SEM := None\<rparr>))" by (simp add: sample_run_fields(4))
  moreover have "SEM (sample_run\<lparr>SEM := None\<rparr>) = None" by simp
  ultimately have 4: "map_option raised (run sample_shell [Acquire 0, Collect 0]
      (run_all_commands (sample_run\<lparr>SEM := None\<rparr>))) = Some (Some (NameError ''SEM''))"
    using B by blast
  show ?thesis using 1 2 3 4 f by simp
qed

text \<open>
  The claim C2 as stated fails: the script run with \<^verbatim>\<open>-o out\<close> binds \<^verbatim>\<open>SEM\<close>
  before the runner starts, both coroutines enter \<^verbatim>\<open>async with SEM\<close>, both commands
  run and the runner finishes without an exception.
\<close>

theorem script_run_raises_no_NameError_counterexample:
  "generate ascii_lower sample_str ''usage: ...'' sample_mkdir
     [''scripts/ft-ergodox.py'', ''-o'', ''out''] sample_args sample_world = (sample_run, Proceed) \<and>
   map_option raised (run sample_shell (one_by_one 2) (run_all_commands sample_run)) = Some None \<and>
   map_option finished (run sample_shell (one_by_one 2) (run_all_commands sample_run)) =
     Some True \<and>
   map_option shell_log (run sample_shell (one_by_one 2) (run_all_commands sample_run)) =
     Some [''openscad -o out/r_Y.3mf RENDER=keycap,stem'',
           ''openscad -o out/l_space.3mf RENDER=keycap,stem''] \<and>
   map_option (\<lambda>s. map snd (futures s))
     (run sample_shell [Acquire 0, Acquire 1] (run_all_commands sample_run)) =
     Some [Running, Running]"
  using sample_run_fields(1)
  by (simp add: sample_complete_run finished_def) (simp add: sample_start fire_def)

subsection \<open>Every command runs once\<close>




section \<open>Constructors and their parents\<close>

subsection \<open>Facts about the constructors\<close>



lemma getitem_Inr: "(getitem xs i = Inr y) = (i < length xs \<and> y = xs ! i)"
  by (auto simp: getitem_def)







































subsection \<open>Overrides along the hierarchy\<close>




end
